theory Spec2Isabelle
  imports Main "HOL-Library.Word"
begin

unbundle bit_operations_syntax

text \<open>
  A model of \<open>packages/desktop_drop/windows/desktop_drop_plugin.cpp\<close>: the effect
  resolver, the \<open>DropRegistrar\<close> singleton, the \<open>DesktopDropTarget\<close> callbacks and the
  root window procedure. Every function takes the state and returns the new one. Writing
  the log has no effect on the state and is left out, together with the calls made only
  to fill a log line.
\<close>

section \<open>Platform types and constants\<close>

text \<open>
  The plugin is written against the Win32 API. \<open>DWORD\<close> and \<open>HRESULT\<close> are 32-bit values,
  a window handle is an opaque pointer (here a natural number, \<open>0\<close> being \<open>nullptr\<close>),
  heap objects created with \<open>new\<close> are identified by their address. Screen and client
  coordinates are \<open>LONG\<close> pairs; the payload stores them as \<open>double(LONG)\<close>, which is
  exact, so they stay integers here.
\<close>

type_synonym DWORD = "32 word"
type_synonym HRESULT = "32 word"
type_synonym HWND = nat
type_synonym addr = nat
type_synonym POINT = "int \<times> int"
type_synonym wstring = "16 word list"

text \<open>The values of the Windows SDK headers (\<open>oleidl.h\<close>, \<open>winuser.h\<close>, \<open>winerror.h\<close>).\<close>

definition DROPEFFECT_NONE :: DWORD where "DROPEFFECT_NONE = 0"
definition DROPEFFECT_COPY :: DWORD where "DROPEFFECT_COPY = 1"
definition DROPEFFECT_MOVE :: DWORD where "DROPEFFECT_MOVE = 2"
definition DROPEFFECT_LINK :: DWORD where "DROPEFFECT_LINK = 4"
definition DROPEFFECT_SCROLL :: DWORD where "DROPEFFECT_SCROLL = 0x80000000"

definition MK_SHIFT :: DWORD where "MK_SHIFT = 0x0004"
definition MK_CONTROL :: DWORD where "MK_CONTROL = 0x0008"

definition S_OK :: HRESULT where "S_OK = 0"
definition E_POINTER :: HRESULT where "E_POINTER = 0x80004003"
definition E_FAIL :: HRESULT where "E_FAIL = 0x80004005"
definition DRAGDROP_E_ALREADYREGISTERED :: HRESULT where
  "DRAGDROP_E_ALREADYREGISTERED = 0x80040101"

definition MAX_PATH :: nat where "MAX_PATH = 260"

text \<open>\<open>#define SUCCEEDED(hr) (((HRESULT)(hr)) >= 0)\<close>, \<open>HRESULT\<close> being a signed \<open>LONG\<close>.\<close>

definition SUCCEEDED :: "HRESULT \<Rightarrow> bool" where
  "SUCCEEDED hr = (0 \<le> sint hr)"

section \<open>Effect resolver\<close>

definition ChooseAllowedEffect :: "DWORD \<Rightarrow> DWORD" where
  "ChooseAllowedEffect allowed =
     (if allowed AND DROPEFFECT_COPY \<noteq> 0 then DROPEFFECT_COPY
      else if allowed AND DROPEFFECT_LINK \<noteq> 0 then DROPEFFECT_LINK
      else if allowed AND DROPEFFECT_MOVE \<noteq> 0 then DROPEFFECT_MOVE
      else DROPEFFECT_NONE)"

definition EffectFromKeyState :: "DWORD \<Rightarrow> DWORD \<Rightarrow> DWORD" where
  "EffectFromKeyState key allowed =
     (let want =
        (if key AND MK_CONTROL \<noteq> 0 \<and> key AND MK_SHIFT \<noteq> 0 then DROPEFFECT_LINK
         else if key AND MK_CONTROL \<noteq> 0 then DROPEFFECT_COPY
         else if key AND MK_SHIFT \<noteq> 0 then DROPEFFECT_MOVE
         else ChooseAllowedEffect allowed)
      in if want AND allowed \<noteq> 0 then want else ChooseAllowedEffect allowed)"

text \<open>
  The three lines every drag callback runs on its in/out effect argument
  (\<open>if (pdwEffect) { ... }\<close>); \<open>None\<close> is a null \<open>pdwEffect\<close>, for which nothing is
  written.
\<close>

definition resolve_in_out :: "DWORD \<Rightarrow> DWORD option \<Rightarrow> DWORD option" where
  "resolve_in_out grfKeyState pdwEffect =
     (case pdwEffect of
        None \<Rightarrow> None
      | Some eff \<Rightarrow>
          (let allowed = (if eff \<noteq> 0 then eff
                          else DROPEFFECT_COPY OR DROPEFFECT_MOVE OR DROPEFFECT_LINK);
               out = EffectFromKeyState grfKeyState allowed
           in Some (if out = DROPEFFECT_NONE then ChooseAllowedEffect allowed else out)))"

text \<open>
  The rule of the effect resolver in the words of its specification, for comparison with
  \<open>EffectFromKeyState\<close>: an effect is \<^emph>\<open>present\<close> in a mask when their bitwise
  conjunction is not zero; the priority pick is the first of copy, link, move present in
  the mask, and none when there is no such effect.
\<close>

definition present :: "DWORD \<Rightarrow> DWORD \<Rightarrow> bool" where
  "present effect allowedMask = (effect AND allowedMask \<noteq> 0)"

definition spec_priority_pick :: "DWORD \<Rightarrow> DWORD" where
  "spec_priority_pick allowedMask =
     (case find (\<lambda>e. present e allowedMask) [DROPEFFECT_COPY, DROPEFFECT_LINK, DROPEFFECT_MOVE] of
        Some e \<Rightarrow> e
      | None \<Rightarrow> DROPEFFECT_NONE)"

definition spec_resolve :: "bool \<Rightarrow> bool \<Rightarrow> DWORD \<Rightarrow> DWORD" where
  "spec_resolve ctrl shift allowedMask =
     (let resolved =
        (if ctrl \<and> shift then DROPEFFECT_LINK
         else if ctrl then DROPEFFECT_COPY
         else if shift then DROPEFFECT_MOVE
         else spec_priority_pick allowedMask)
      in if present resolved allowedMask then resolved else spec_priority_pick allowedMask)"

section \<open>Data model\<close>

datatype UiEventType = Entered | Updated | Exited | Performed

text \<open>\<open>files\<close> is a raw pointer to a heap-allocated list; \<open>None\<close> is \<open>nullptr\<close>.\<close>

record UiEventPayload =
  ev_type :: UiEventType
  ev_x :: int
  ev_y :: int
  ev_files :: "addr option"

datatype EncodableValue =
  ENull
  | EDouble int
  | EString string
  | EList "EncodableValue list"

text \<open>The legacy drop handle: what \<open>DragQueryPoint\<close> and \<open>DragQueryFile\<close> read from it.\<close>

record HDROP =
  hdrop_point :: POINT
  hdrop_in_client :: bool
  hdrop_files :: "wstring list"

text \<open>The data object of a drag: the answers of its methods and the file list behind it.\<close>

record IDataObject =
  QueryGetData :: HRESULT
  GetData :: HRESULT
  GlobalLock_ok :: bool
  data_files :: "wstring list"

text \<open>The messages the root window procedure distinguishes.\<close>

datatype msg =
  kMsgDoReRegister
  | kMsgFireUiEvent addr
  | WM_DROPFILES HDROP
  | WM_PARENTNOTIFY_CREATE HWND
  | WM_PARENTNOTIFY_DESTROY HWND
  | WM_OTHER

text \<open>
  Calls into the operating system that change its drop-target tables, in the order they are
  made, and the line \<open>ForceReRegisterAll begin\<close> the sweep writes when it starts.
\<close>

datatype os_call =
  CallRegisterDragDrop HWND
  | CallRevokeDragDrop HWND
  | CallDragAcceptFiles HWND bool
  | CallDragFinish
  | LogForceReRegisterAllBegin

text \<open>
  What the operating system answers during one call into the plugin: which handles are
  windows, the result of registering and revoking a drop target, hit testing, coordinate
  conversion, the children of a window in enumeration order, the UTF-8 conversion, and the
  successive readings of the steady clock (\<open>NowMs\<close>) in milliseconds. With them goes
  \<open>unordered_iteration\<close>, the order in which a \<open>std::unordered_set\<close> of handles hands out
  its elements, which the language leaves to the implementation.
\<close>

record os_env =
  IsWindow :: "HWND \<Rightarrow> bool"
  RegisterDragDrop :: "HWND \<Rightarrow> HRESULT"
  RevokeDragDrop :: "HWND \<Rightarrow> HRESULT"
  WindowFromPoint :: "POINT \<Rightarrow> HWND"
  ScreenToClient :: "HWND \<Rightarrow> POINT \<Rightarrow> POINT"
  EnumChildWindows :: "HWND \<Rightarrow> HWND list"
  WideCharToMultiByte :: "wstring \<Rightarrow> string"
  NowMs :: "nat \<Rightarrow> 64 word"
  unordered_iteration :: "HWND set \<Rightarrow> HWND list"

text \<open>
  The state of the plugin: the fields of the \<open>DropRegistrar\<close> singleton, the fields of the
  one \<open>DesktopDropTarget\<close> the drag callbacks read and write, and what surrounds them: the
  message queue of the root window, the two heaps (payloads and file lists), the calls made
  so far and the method invocations sent to the channel. The fields keep their names
  without the trailing underscore of the source. \<open>fault\<close> records undefined
  behaviour (a dereference of a null or dangling pointer).
\<close>

record plugin_state =
  root :: HWND
  target :: bool
  registered :: "HWND set"
  pending_add :: "HWND list"
  pending_del :: "HWND list"
  pending_re_reg :: bool
  window_handle :: HWND
  in_ole_drop :: bool
  last_drop_ms :: "64 word"
  msg_queue :: "msg list"
  ev_heap :: "addr \<rightharpoonup> UiEventPayload"
  list_heap :: "addr \<rightharpoonup> string list"
  next_addr :: addr
  os_calls :: "os_call list"
  invoked :: "(string \<times> EncodableValue) list"
  fault :: bool

section \<open>Primitive effects\<close>

definition PostMessage :: "msg \<Rightarrow> plugin_state \<Rightarrow> plugin_state" where
  "PostMessage m s = s\<lparr>msg_queue := msg_queue s @ [m]\<rparr>"

definition os_call :: "os_call \<Rightarrow> plugin_state \<Rightarrow> plugin_state" where
  "os_call c s = s\<lparr>os_calls := os_calls s @ [c]\<rparr>"

definition InvokeMethod :: "string \<Rightarrow> EncodableValue \<Rightarrow> plugin_state \<Rightarrow> plugin_state" where
  "InvokeMethod name args s = s\<lparr>invoked := invoked s @ [(name, args)]\<rparr>"

definition new_payload :: "UiEventPayload \<Rightarrow> plugin_state \<Rightarrow> addr \<times> plugin_state" where
  "new_payload p s =
     (next_addr s, s\<lparr>ev_heap := (ev_heap s)(next_addr s \<mapsto> p), next_addr := Suc (next_addr s)\<rparr>)"

definition new_list :: "string list \<Rightarrow> plugin_state \<Rightarrow> addr \<times> plugin_state" where
  "new_list fs s =
     (next_addr s, s\<lparr>list_heap := (list_heap s)(next_addr s \<mapsto> fs), next_addr := Suc (next_addr s)\<rparr>)"

text \<open>
  \<open>delete ev\<close>: \<open>UiEventPayload\<close> has no destructor, so only the payload itself is freed;
  the list \<open>files\<close> points to is not touched.
\<close>

definition delete_payload :: "addr \<Rightarrow> plugin_state \<Rightarrow> plugin_state" where
  "delete_payload ev s = s\<lparr>ev_heap := (ev_heap s)(ev := None)\<rparr>"

definition delete_list :: "addr \<Rightarrow> plugin_state \<Rightarrow> plugin_state" where
  "delete_list l s = s\<lparr>list_heap := (list_heap s)(l := None)\<rparr>"

definition ws2s :: "os_env \<Rightarrow> wstring \<Rightarrow> string" where
  "ws2s os w =
     (if w = [] then []
      else (let n = length (WideCharToMultiByte os w)
            in if n \<le> 0 then [] else WideCharToMultiByte os w))"

text \<open>
  \<open>DragQueryFile(h, i, buf, MAX_PATH)\<close> into a zeroed buffer, then the conversion of the
  buffer to a \<open>std::wstring\<close>: at most \<open>MAX_PATH - 1\<close> characters, up to the first zero.
\<close>

definition read_path :: "wstring \<Rightarrow> wstring" where
  "read_path f = takeWhile (\<lambda>c. c \<noteq> 0) (take (MAX_PATH - 1) f)"

section \<open>DropRegistrar\<close>

definition root_valid :: "os_env \<Rightarrow> plugin_state \<Rightarrow> bool" where
  "root_valid os s = (root s \<noteq> 0 \<and> IsWindow os (root s))"

text \<open>\<open>DesktopDropTarget::IsDragging\<close> reads the session flag of the target.\<close>

definition Target_IsDragging :: "plugin_state \<Rightarrow> bool" where
  "Target_IsDragging s = in_ole_drop s"

text \<open>\<open>DropRegistrar::IsDragging\<close>: \<open>target ? target->IsDragging() : false\<close>.\<close>

definition IsDragging :: "plugin_state \<Rightarrow> bool" where
  "IsDragging s = (if target s then Target_IsDragging s else False)"

definition registration_ok :: "HRESULT \<Rightarrow> bool" where
  "registration_ok hr = (SUCCEEDED hr \<or> hr = DRAGDROP_E_ALREADYREGISTERED)"

definition RegisterOnWindow :: "os_env \<Rightarrow> HWND \<Rightarrow> plugin_state \<Rightarrow> plugin_state" where
  "RegisterOnWindow os w s =
     (if w = 0 then s
      else if w \<in> registered s then s
      else if IsDragging s then s\<lparr>pending_add := pending_add s @ [w]\<rparr>
      else (let hr = RegisterDragDrop os w;
                s1 = os_call (CallRegisterDragDrop w) s
            in if registration_ok hr
               then s1\<lparr>registered := insert w (registered s1)\<rparr>
               else s1))"

definition RevokeOnWindow :: "os_env \<Rightarrow> HWND \<Rightarrow> plugin_state \<Rightarrow> plugin_state" where
  "RevokeOnWindow os w s =
     (if w = 0 then s
      else if w \<notin> registered s then s
      else if IsDragging s then s\<lparr>pending_del := pending_del s @ [w]\<rparr>
      else (let s1 = os_call (CallRevokeDragDrop w) s
            in s1\<lparr>registered := registered s1 - {w}\<rparr>))"

definition DoReRegister :: "os_env \<Rightarrow> HWND \<Rightarrow> plugin_state \<Rightarrow> plugin_state" where
  "DoReRegister os w s =
     (let s1 = os_call (CallRevokeDragDrop w) s;
          s2 = s1\<lparr>registered := registered s1 - {w}\<rparr>;
          rr = RegisterDragDrop os w;
          s3 = os_call (CallRegisterDragDrop w) s2
      in if registration_ok rr
         then s3\<lparr>registered := insert w (registered s3)\<rparr>
         else s3)"

definition EnumChildProc :: "os_env \<Rightarrow> HWND \<Rightarrow> plugin_state \<Rightarrow> plugin_state" where
  "EnumChildProc os w s = os_call (CallDragAcceptFiles w True) (RegisterOnWindow os w s)"

text \<open>The bodies of the two loops of \<open>FlushPendingChildOps\<close>.\<close>

definition flush_del :: "os_env \<Rightarrow> HWND \<Rightarrow> plugin_state \<Rightarrow> plugin_state" where
  "flush_del os w s =
     (if w \<noteq> 0 \<and> IsWindow os w
      then (let s1 = os_call (CallRevokeDragDrop w) s
            in s1\<lparr>registered := registered s1 - {w}\<rparr>)
      else s)"

definition flush_add :: "os_env \<Rightarrow> HWND \<Rightarrow> plugin_state \<Rightarrow> plugin_state" where
  "flush_add os w s =
     (if w \<noteq> 0 \<and> IsWindow os w
      then (let rr = RegisterDragDrop os w;
                s1 = os_call (CallRegisterDragDrop w) s
            in if registration_ok rr
               then s1\<lparr>registered := insert w (registered s1)\<rparr>
               else s1)
      else s)"

definition FlushPendingChildOps :: "os_env \<Rightarrow> plugin_state \<Rightarrow> plugin_state" where
  "FlushPendingChildOps os s =
     (let s1 = fold (flush_del os) (pending_del s) s;
          s2 = s1\<lparr>pending_del := []\<rparr>;
          s3 = fold (flush_add os) (pending_add s2) s2
      in s3\<lparr>pending_add := []\<rparr>)"

text \<open>
  The sweep. The snapshot of \<open>registered\<close> is a vector filled by iterating the hash set,
  in whatever order the set hands out its elements.
\<close>

definition ForceReRegisterAll :: "os_env \<Rightarrow> plugin_state \<Rightarrow> plugin_state" where
  "ForceReRegisterAll os s =
     (if root s = 0 \<or> \<not> IsWindow os (root s) then s
      else (let s0 = os_call LogForceReRegisterAllBegin s;
                snapshot = unordered_iteration os (registered s0);
                s1 = DoReRegister os (root s0) s0;
                s2 = fold (\<lambda>w t. if w \<noteq> 0 \<and> IsWindow os w \<and> w \<noteq> root t
                                  then DoReRegister os w t else t) snapshot s1;
                s3 = fold (EnumChildProc os) (EnumChildWindows os (root s2)) s2
            in os_call (CallDragAcceptFiles (root s3) True) s3))"

definition RequestReRegisterAll :: "os_env \<Rightarrow> plugin_state \<Rightarrow> plugin_state" where
  "RequestReRegisterAll os s =
     (if root s = 0 \<or> \<not> IsWindow os (root s) then s
      else PostMessage kMsgDoReRegister (s\<lparr>pending_re_reg := True\<rparr>))"

definition OnDragSessionEnd :: "os_env \<Rightarrow> plugin_state \<Rightarrow> plugin_state" where
  "OnDragSessionEnd os s =
     (let s1 = FlushPendingChildOps os s
      in if pending_re_reg s1 then RequestReRegisterAll os s1 else s1)"

definition EnsureRegisteredUnderPoint :: "os_env \<Rightarrow> POINT \<Rightarrow> plugin_state \<Rightarrow> plugin_state" where
  "EnsureRegisteredUnderPoint os pt_screen s =
     (let under = WindowFromPoint os pt_screen
      in if under = 0 then s
         else if under \<in> registered s then s
         else RegisterOnWindow os under s)"

definition PostUiEvent :: "os_env \<Rightarrow> addr \<Rightarrow> plugin_state \<Rightarrow> plugin_state" where
  "PostUiEvent os ev s =
     (if root s = 0 \<or> \<not> IsWindow os (root s) then delete_payload ev s
      else PostMessage (kMsgFireUiEvent ev) s)"

section \<open>DesktopDropTarget\<close>

text \<open>
  \<open>DeliverUiEvent\<close> reads the payload behind the pointer. For \<open>Performed\<close> it takes the
  file list into a \<open>unique_ptr\<close>, which frees the list when the case block ends.
\<close>

definition DeliverUiEvent :: "addr \<Rightarrow> plugin_state \<Rightarrow> plugin_state" where
  "DeliverUiEvent ev s =
     (case ev_heap s ev of
        None \<Rightarrow> s\<lparr>fault := True\<rparr>
      | Some p \<Rightarrow>
          (case ev_type p of
             Entered \<Rightarrow> InvokeMethod ''entered'' (EList [EDouble (ev_x p), EDouble (ev_y p)]) s
           | Updated \<Rightarrow> InvokeMethod ''updated'' (EList [EDouble (ev_x p), EDouble (ev_y p)]) s
           | Exited \<Rightarrow> InvokeMethod ''exited'' ENull s
           | Performed \<Rightarrow>
               (case ev_files p of
                  None \<Rightarrow> s\<lparr>fault := True\<rparr>
                | Some l \<Rightarrow>
                    (case list_heap s l of
                       None \<Rightarrow> s\<lparr>fault := True\<rparr>
                     | Some fs \<Rightarrow>
                         delete_list l
                           (InvokeMethod ''performOperation'' (EList (map EString fs)) s)))))"

text \<open>The result of a drag callback: its return value, what it wrote through \<open>pdwEffect\<close>
  (\<open>None\<close> when the pointer is null) and the state it leaves.\<close>

record drag_result =
  result_hr :: HRESULT
  result_effect :: "DWORD option"
  result_state :: plugin_state

definition DragEnter ::
  "os_env \<Rightarrow> IDataObject option \<Rightarrow> DWORD \<Rightarrow> POINT \<Rightarrow> DWORD option \<Rightarrow> plugin_state \<Rightarrow> drag_result" where
  "DragEnter os pDataObj grfKeyState pt pdwEffect s =
     (let s1 = s\<lparr>in_ole_drop := True\<rparr>;
          eff = resolve_in_out grfKeyState pdwEffect;
          s2 = EnsureRegisteredUnderPoint os pt s1;
          client = ScreenToClient os (window_handle s2) pt;
          (ev, s3) = new_payload
             \<lparr>ev_type = Entered, ev_x = fst client, ev_y = snd client, ev_files = None\<rparr> s2;
          s4 = PostUiEvent os ev s3
      in \<lparr>result_hr = S_OK, result_effect = eff, result_state = s4\<rparr>)"

definition DragOver ::
  "os_env \<Rightarrow> DWORD \<Rightarrow> POINT \<Rightarrow> DWORD option \<Rightarrow> plugin_state \<Rightarrow> drag_result" where
  "DragOver os grfKeyState pt pdwEffect s =
     (let eff = resolve_in_out grfKeyState pdwEffect;
          client = ScreenToClient os (window_handle s) pt;
          (ev, s1) = new_payload
             \<lparr>ev_type = Updated, ev_x = fst client, ev_y = snd client, ev_files = None\<rparr> s;
          s2 = PostUiEvent os ev s1
      in \<lparr>result_hr = S_OK, result_effect = eff, result_state = s2\<rparr>)"

definition DragLeave :: "os_env \<Rightarrow> plugin_state \<Rightarrow> drag_result" where
  "DragLeave os s =
     (let s1 = s\<lparr>in_ole_drop := False\<rparr>;
          (ev, s2) = new_payload \<lparr>ev_type = Exited, ev_x = 0, ev_y = 0, ev_files = None\<rparr> s1;
          s3 = PostUiEvent os ev s2;
          s4 = OnDragSessionEnd os s3;
          s5 = s4\<lparr>last_drop_ms := NowMs os 0\<rparr>
      in \<lparr>result_hr = S_OK, result_effect = None, result_state = s5\<rparr>)"

text \<open>The file list \<open>Drop\<close> reads from the data object; every failure leaves it empty.\<close>

definition drop_files :: "os_env \<Rightarrow> IDataObject option \<Rightarrow> string list" where
  "drop_files os pDataObj =
     (case pDataObj of
        None \<Rightarrow> []
      | Some d \<Rightarrow>
          (if QueryGetData d = S_OK
           then (if GetData d = S_OK
                 then (if GlobalLock_ok d
                       then map (\<lambda>f. ws2s os (read_path f)) (data_files d)
                       else [])
                 else [])
           else []))"

definition Drop ::
  "os_env \<Rightarrow> IDataObject option \<Rightarrow> DWORD \<Rightarrow> POINT \<Rightarrow> DWORD option \<Rightarrow> plugin_state \<Rightarrow> drag_result" where
  "Drop os pDataObj grfKeyState pt pdwEffect s =
     (let eff = resolve_in_out grfKeyState pdwEffect;
          (files_list, s1) = new_list (drop_files os pDataObj) s;
          (evPerformed, s2) = new_payload
             \<lparr>ev_type = Performed, ev_x = 0, ev_y = 0, ev_files = Some files_list\<rparr> s1;
          s3 = PostUiEvent os evPerformed s2;
          (evExited, s4) = new_payload
             \<lparr>ev_type = Exited, ev_x = 0, ev_y = 0, ev_files = None\<rparr> s3;
          s5 = PostUiEvent os evExited s4;
          s6 = s5\<lparr>in_ole_drop := False\<rparr>;
          s7 = OnDragSessionEnd os s6;
          s8 = s7\<lparr>last_drop_ms := NowMs os 0\<rparr>
      in \<lparr>result_hr = S_OK, result_effect = eff, result_state = s8\<rparr>)"

text \<open>
  The legacy handler. \<open>now - last_drop_ms < 200\<close> is unsigned 64-bit arithmetic. The
  second reading of the clock, at the end, is \<open>NowMs os 1\<close>.
\<close>

definition HandleDropFiles :: "os_env \<Rightarrow> HDROP \<Rightarrow> plugin_state \<Rightarrow> plugin_state" where
  "HandleDropFiles os hdrop s =
     (if Target_IsDragging s then s
      else (let now = NowMs os 0
            in if now - last_drop_ms s < 200 then s
               else (let pt = (if hdrop_in_client hdrop then hdrop_point hdrop
                               else ScreenToClient os (window_handle s) (hdrop_point hdrop));
                         (evEnter, s1) = new_payload
                            \<lparr>ev_type = Entered, ev_x = fst pt, ev_y = snd pt, ev_files = None\<rparr> s;
                         s2 = PostUiEvent os evEnter s1;
                         (list, s3) = new_list
                            (map (\<lambda>f. ws2s os (read_path f)) (hdrop_files hdrop)) s2;
                         (evPerformed, s4) = new_payload
                            \<lparr>ev_type = Performed, ev_x = 0, ev_y = 0, ev_files = Some list\<rparr> s3;
                         s5 = PostUiEvent os evPerformed s4;
                         (evExit, s6) = new_payload
                            \<lparr>ev_type = Exited, ev_x = 0, ev_y = 0, ev_files = None\<rparr> s5;
                         s7 = PostUiEvent os evExit s6;
                         s8 = RequestReRegisterAll os s7
                     in s8\<lparr>last_drop_ms := NowMs os 1\<rparr>)))"

definition OnWmDropFiles :: "os_env \<Rightarrow> HDROP \<Rightarrow> plugin_state \<Rightarrow> plugin_state" where
  "OnWmDropFiles os hdrop s = (if target s then HandleDropFiles os hdrop s else s)"

section \<open>Root message interceptor\<close>

text \<open>
  \<open>RootSubclassProc\<close> on one message taken from the queue of the root window. Messages it
  does not know go to the original window procedure, which leaves this state alone.
\<close>

definition RootSubclassProc :: "os_env \<Rightarrow> msg \<Rightarrow> plugin_state \<Rightarrow> plugin_state" where
  "RootSubclassProc os m s =
     (case m of
        kMsgDoReRegister \<Rightarrow>
          (if \<not> IsDragging s \<and> pending_re_reg s
           then ForceReRegisterAll os (s\<lparr>pending_re_reg := False\<rparr>)
           else if pending_re_reg s then PostMessage kMsgDoReRegister s
           else s)
      | kMsgFireUiEvent ev \<Rightarrow>
          delete_payload ev (if target s then DeliverUiEvent ev s else s)
      | WM_DROPFILES hdrop \<Rightarrow> os_call CallDragFinish (OnWmDropFiles os hdrop s)
      | WM_PARENTNOTIFY_CREATE child \<Rightarrow>
          PostMessage kMsgDoReRegister
            (os_call (CallDragAcceptFiles child True) (RegisterOnWindow os child s))
      | WM_PARENTNOTIFY_DESTROY child \<Rightarrow>
          os_call (CallDragAcceptFiles child False) (RevokeOnWindow os child s)
      | WM_OTHER \<Rightarrow> s)"

text \<open>The message loop: take the message at the head of the queue and dispatch it,
  at most \<open>n\<close> times.\<close>

fun pump :: "os_env \<Rightarrow> nat \<Rightarrow> plugin_state \<Rightarrow> plugin_state" where
  "pump os 0 s = s"
| "pump os (Suc n) s =
     (case msg_queue s of
        [] \<Rightarrow> s
      | m # ms \<Rightarrow> pump os n (RootSubclassProc os m (s\<lparr>msg_queue := ms\<rparr>)))"

section \<open>Requests made during a drag session\<close>

datatype request = ReqRegister HWND | ReqRevoke HWND

fun apply_request :: "os_env \<Rightarrow> request \<Rightarrow> plugin_state \<Rightarrow> plugin_state" where
  "apply_request os (ReqRegister w) s = RegisterOnWindow os w s"
| "apply_request os (ReqRevoke w) s = RevokeOnWindow os w s"

fun requested_adds :: "request list \<Rightarrow> HWND list" where
  "requested_adds [] = []"
| "requested_adds (ReqRegister w # rs) = w # requested_adds rs"
| "requested_adds (ReqRevoke w # rs) = requested_adds rs"

fun requested_dels :: "request list \<Rightarrow> HWND list" where
  "requested_dels [] = []"
| "requested_dels (ReqRegister w # rs) = requested_dels rs"
| "requested_dels (ReqRevoke w # rs) = w # requested_dels rs"

text \<open>
  The registry operations in the words of the specification, on the registered set alone,
  as they are applied outside a session: \<open>revokeWindow\<close> removes the handle whatever the
  operating system answers; \<open>registerWindow\<close> does nothing for a null or registered handle,
  skips a handle that is no longer a window, and otherwise adds the handle when the
  registration succeeds or reports that the window is already registered.
\<close>

definition spec_revokeWindow :: "HWND \<Rightarrow> HWND set \<Rightarrow> HWND set" where
  "spec_revokeWindow h R = R - {h}"

definition spec_registerWindow :: "os_env \<Rightarrow> HWND \<Rightarrow> HWND set \<Rightarrow> HWND set" where
  "spec_registerWindow os h R =
     (if h = 0 \<or> h \<in> R then R
      else if IsWindow os h \<and> registration_ok (RegisterDragDrop os h) then insert h R
      else R)"

text \<open>Every requested mutation applied once, the deletes before the adds, each in
  request order.\<close>

definition spec_flushed_set :: "os_env \<Rightarrow> request list \<Rightarrow> HWND set \<Rightarrow> HWND set" where
  "spec_flushed_set os reqs R =
     fold (spec_registerWindow os) (requested_adds reqs)
       (fold spec_revokeWindow (requested_dels reqs) R)"

definition count_sweeps :: "plugin_state \<Rightarrow> nat" where
  "count_sweeps s = count_list (os_calls s) LogForceReRegisterAllBegin"

fun private_msg :: "msg \<Rightarrow> bool" where
  "private_msg kMsgDoReRegister = True"
| "private_msg (kMsgFireUiEvent ev) = True"
| "private_msg m = False"

text \<open>
  Two states agree on what decides when a sweep runs: root, target, session flag, pending
  re-registration flag, message queue and the number of sweeps so far.
\<close>

definition same_control :: "plugin_state \<Rightarrow> plugin_state \<Rightarrow> bool" where
  "same_control s t =
     (root t = root s \<and> target t = target s \<and> in_ole_drop t = in_ole_drop s \<and>
      pending_re_reg t = pending_re_reg s \<and> msg_queue t = msg_queue s \<and>
      count_sweeps t = count_sweeps s)"

section \<open>Sample environments and states\<close>

text \<open>
  An operating system in which every non-null handle is a window and every call succeeds,
  and a started plugin on root window \<open>1\<close> with nothing else going on.
\<close>

definition os_plain :: os_env where
  "os_plain =
     \<lparr>IsWindow = (\<lambda>w. w \<noteq> 0),
      RegisterDragDrop = (\<lambda>w. S_OK),
      RevokeDragDrop = (\<lambda>w. S_OK),
      WindowFromPoint = (\<lambda>p. 1),
      ScreenToClient = (\<lambda>w p. p),
      EnumChildWindows = (\<lambda>w. []),
      WideCharToMultiByte = map (\<lambda>c. if c = 97 then CHR ''a'' else CHR ''b''),
      NowMs = (\<lambda>k. 1000 + of_nat k),
      unordered_iteration = (\<lambda>S. rev (sorted_list_of_set S))\<rparr>"

definition s_idle :: plugin_state where
  "s_idle =
     \<lparr>root = 1, target = True, registered = {1}, pending_add = [], pending_del = [],
      pending_re_reg = False, window_handle = 1, in_ole_drop = False, last_drop_ms = 0,
      msg_queue = [], ev_heap = Map.empty, list_heap = Map.empty, next_addr = 0,
      os_calls = [], invoked = [], fault = False\<rparr>"

text \<open>A drag session in progress, with child window \<open>2\<close> registered beside the root;
  the same with handle \<open>3\<close> already on the add-queue.\<close>

definition s_session :: plugin_state where
  "s_session = s_idle\<lparr>registered := {1, 2}, in_ole_drop := True\<rparr>"

definition s_queued :: plugin_state where
  "s_queued = s_session\<lparr>pending_add := [3]\<rparr>"

text \<open>Child window \<open>2\<close> has been destroyed; registration fails.\<close>

definition os_child_gone :: os_env where
  "os_child_gone = os_plain\<lparr>IsWindow := (\<lambda>w. w \<noteq> 0 \<and> w \<noteq> 2)\<rparr>"

definition os_failing :: os_env where
  "os_failing = os_plain\<lparr>RegisterDragDrop := (\<lambda>w. E_FAIL)\<rparr>"

text \<open>The root window has been destroyed.\<close>

definition os_root_gone :: os_env where
  "os_root_gone = os_plain\<lparr>IsWindow := (\<lambda>w. False)\<rparr>"

text \<open>A data object and a legacy drop handle with files \<open>ab\<close> (and \<open>a\<close>); a state whose
  last drop was at 900 ms, the clock of \<open>os_plain\<close> starting at 1000 ms.\<close>

definition data_ab :: IDataObject where
  "data_ab = \<lparr>QueryGetData = S_OK, GetData = S_OK, GlobalLock_ok = True,
              data_files = [[97, 98]]\<rparr>"

definition hdrop_ab :: HDROP where
  "hdrop_ab = \<lparr>hdrop_point = (10, 20), hdrop_in_client = True,
               hdrop_files = [[97, 98], [97]]\<rparr>"

definition s_recent :: plugin_state where
  "s_recent = s_idle\<lparr>last_drop_ms := 900\<rparr>"

text \<open>A session in progress with a sweep requested and its message still in the queue.\<close>

definition s_due :: plugin_state where
  "s_due = s_session\<lparr>pending_re_reg := True, msg_queue := [kMsgDoReRegister]\<rparr>"

text \<open>A child window \<open>3\<close> has been created during the session: the state after the
  root window procedure has handled the notification.\<close>

definition s_child :: plugin_state where
  "s_child = RootSubclassProc os_plain (WM_PARENTNOTIFY_CREATE 3) s_session"

section \<open>Facts about the samples and the primitive effects\<close>

lemmas prim_defs = os_call_def PostMessage_def InvokeMethod_def new_payload_def new_list_def
  delete_payload_def delete_list_def

lemma os_plain_simps:
  "IsWindow os_plain w = (w \<noteq> 0)"
  "RegisterDragDrop os_plain w = S_OK"
  "RevokeDragDrop os_plain w = S_OK"
  "WindowFromPoint os_plain p = 1"
  "ScreenToClient os_plain h p = p"
  "EnumChildWindows os_plain w = []"
  "WideCharToMultiByte os_plain ws = map (\<lambda>c. if c = 97 then CHR ''a'' else CHR ''b'') ws"
  "NowMs os_plain k = 1000 + of_nat k"
  by (simp_all add: os_plain_def)

lemma os_root_gone_simps:
  "IsWindow os_root_gone w = False"
  "WideCharToMultiByte os_root_gone = WideCharToMultiByte os_plain"
  "NowMs os_root_gone = NowMs os_plain"
  by (simp_all add: os_root_gone_def)

lemma s_idle_simps:
  "root s_idle = 1" "target s_idle" "registered s_idle = {1}" "pending_add s_idle = []"
  "pending_del s_idle = []" "\<not> pending_re_reg s_idle" "window_handle s_idle = 1"
  "\<not> in_ole_drop s_idle" "last_drop_ms s_idle = 0" "msg_queue s_idle = []"
  "ev_heap s_idle = Map.empty" "list_heap s_idle = Map.empty" "next_addr s_idle = 0"
  "os_calls s_idle = []" "invoked s_idle = []" "\<not> fault s_idle"
  by (simp_all add: s_idle_def)

lemma s_session_simps:
  "root s_session = 1" "target s_session" "registered s_session = {1, 2}"
  "pending_add s_session = []" "pending_del s_session = []" "\<not> pending_re_reg s_session"
  "window_handle s_session = 1" "in_ole_drop s_session" "last_drop_ms s_session = 0"
  "msg_queue s_session = []" "ev_heap s_session = Map.empty" "list_heap s_session = Map.empty"
  "next_addr s_session = 0" "os_calls s_session = []" "invoked s_session = []"
  "\<not> fault s_session"
  by (simp_all add: s_session_def s_idle_def)

lemma ws2s_plain:
  "ws2s os_plain (read_path [97, 98]) = ''ab''" "ws2s os_plain (read_path [97]) = ''a''"
  by (simp_all add: ws2s_def read_path_def os_plain_simps MAX_PATH_def Let_def)

section \<open>Effect resolver: properties\<close>

lemmas effect_defs = DROPEFFECT_NONE_def DROPEFFECT_COPY_def DROPEFFECT_MOVE_def
  DROPEFFECT_LINK_def MK_SHIFT_def MK_CONTROL_def

lemma and_7_eq_0_iff:
  "(a :: DWORD) AND 7 = 0 \<longleftrightarrow> a AND 1 = 0 \<and> a AND 4 = 0 \<and> a AND 2 = 0"
proof -
  have "a AND 7 = a AND (1 OR (2 OR 4))" by simp
  also have "\<dots> = (a AND 1) OR ((a AND 2) OR (a AND 4))"
    by (simp only: bit.conj_disj_distrib)
  finally show ?thesis by (auto simp: or_eq_0_iff)
qed

lemma full_mask: "DROPEFFECT_COPY OR DROPEFFECT_MOVE OR DROPEFFECT_LINK = (7 :: DWORD)"
  by (simp add: effect_defs)

lemma ChooseAllowedEffect_none_iff:
  "ChooseAllowedEffect a = DROPEFFECT_NONE \<longleftrightarrow> a AND 7 = 0"
  by (auto simp: ChooseAllowedEffect_def effect_defs and_7_eq_0_iff split: if_splits)

lemma ChooseAllowedEffect_present:
  "a AND 7 \<noteq> 0 \<Longrightarrow> present (ChooseAllowedEffect a) a"
  by (auto simp: ChooseAllowedEffect_def present_def effect_defs and_7_eq_0_iff and.commute)

lemma ChooseAllowedEffect_range:
  "ChooseAllowedEffect a \<in> {DROPEFFECT_COPY, DROPEFFECT_LINK, DROPEFFECT_MOVE, DROPEFFECT_NONE}"
  by (simp add: ChooseAllowedEffect_def)

lemma EffectFromKeyState_cases:
  "EffectFromKeyState k a = ChooseAllowedEffect a \<or>
   (EffectFromKeyState k a \<in> {DROPEFFECT_COPY, DROPEFFECT_LINK, DROPEFFECT_MOVE} \<and>
    present (EffectFromKeyState k a) a)"
  by (auto simp: EffectFromKeyState_def present_def Let_def)

lemma EffectFromKeyState_none_iff:
  "EffectFromKeyState k a = DROPEFFECT_NONE \<longleftrightarrow> a AND 7 = 0"
proof
  assume n: "EffectFromKeyState k a = DROPEFFECT_NONE"
  from EffectFromKeyState_cases [of k a] show "a AND 7 = 0"
  proof
    assume "EffectFromKeyState k a = ChooseAllowedEffect a"
    with n show ?thesis by (simp add: ChooseAllowedEffect_none_iff [symmetric])
  next
    assume "EffectFromKeyState k a \<in> {DROPEFFECT_COPY, DROPEFFECT_LINK, DROPEFFECT_MOVE} \<and>
      present (EffectFromKeyState k a) a"
    with n show ?thesis by (simp add: effect_defs)
  qed
next
  assume z: "a AND 7 = 0"
  then have c: "ChooseAllowedEffect a = DROPEFFECT_NONE"
    by (simp add: ChooseAllowedEffect_none_iff)
  from z have "a AND 1 = 0" "a AND 4 = 0" "a AND 2 = 0"
    by (simp_all add: and_7_eq_0_iff)
  then show "EffectFromKeyState k a = DROPEFFECT_NONE"
    by (simp add: EffectFromKeyState_def Let_def c effect_defs and.commute)
qed

lemma spec_priority_pick_eq: "spec_priority_pick a = ChooseAllowedEffect a"
  by (simp add: spec_priority_pick_def ChooseAllowedEffect_def present_def and.commute)

lemma EffectFromKeyState_chooses_present:
  "(allowed AND (DROPEFFECT_COPY OR DROPEFFECT_MOVE OR DROPEFFECT_LINK) \<noteq> 0 \<longrightarrow>
      present (EffectFromKeyState key allowed) allowed \<and>
      EffectFromKeyState key allowed \<in> {DROPEFFECT_COPY, DROPEFFECT_MOVE, DROPEFFECT_LINK}) \<and>
   (EffectFromKeyState key allowed = DROPEFFECT_NONE \<longleftrightarrow>
      allowed AND (DROPEFFECT_COPY OR DROPEFFECT_MOVE OR DROPEFFECT_LINK) = 0)"
proof -
  have none: "EffectFromKeyState key allowed = DROPEFFECT_NONE \<longleftrightarrow> allowed AND 7 = 0"
    by (rule EffectFromKeyState_none_iff)
  have "present (EffectFromKeyState key allowed) allowed \<and>
        EffectFromKeyState key allowed \<in> {DROPEFFECT_COPY, DROPEFFECT_MOVE, DROPEFFECT_LINK}"
    if nz: "allowed AND 7 \<noteq> 0"
  proof -
    from nz none have ne: "EffectFromKeyState key allowed \<noteq> DROPEFFECT_NONE" by simp
    from EffectFromKeyState_cases [of key allowed] show ?thesis
    proof
      assume e: "EffectFromKeyState key allowed = ChooseAllowedEffect allowed"
      with ne ChooseAllowedEffect_range [of allowed] ChooseAllowedEffect_present [OF nz]
      show ?thesis by auto
    next
      assume "EffectFromKeyState key allowed \<in> {DROPEFFECT_COPY, DROPEFFECT_LINK, DROPEFFECT_MOVE} \<and>
        present (EffectFromKeyState key allowed) allowed"
      then show ?thesis by auto
    qed
  qed
  with none show ?thesis by (simp add: full_mask)
qed

lemma and_7_and:
  "(a AND 7) AND (1 :: DWORD) = a AND 1"
  "(a AND 7) AND (2 :: DWORD) = a AND 2"
  "(a AND 7) AND (4 :: DWORD) = a AND 4"
  by (simp_all add: and.assoc)

lemma and_and_7:
  "(1 :: DWORD) AND (a AND 7) = 1 AND a"
  "(2 :: DWORD) AND (a AND 7) = 2 AND a"
  "(4 :: DWORD) AND (a AND 7) = 4 AND a"
  by (simp_all add: and.left_commute [of _ a 7] and.commute)

lemma ChooseAllowedEffect_and_7: "ChooseAllowedEffect (a AND 7) = ChooseAllowedEffect a"
  by (simp add: ChooseAllowedEffect_def effect_defs and_7_and)

lemma EffectFromKeyState_and_7: "EffectFromKeyState k (a AND 7) = EffectFromKeyState k a"
proof -
  have w: "(w AND (a AND 7) \<noteq> 0) = (w AND a \<noteq> 0)"
    if "w = DROPEFFECT_COPY \<or> w = DROPEFFECT_LINK \<or> w = DROPEFFECT_MOVE \<or> w = DROPEFFECT_NONE"
    for w
    using that by (auto simp: effect_defs and_and_7)
  show ?thesis
    unfolding EffectFromKeyState_def Let_def ChooseAllowedEffect_and_7
    by (intro if_cong w refl) (use ChooseAllowedEffect_range [of a] in auto)
qed

text \<open>
  Claim C1, as the code has it. The resolver only ever chooses among copy, link and move.
  For every modifier-key combination and every allowed mask that contains at least one of
  copy, move and link, the result is one of these three and is present in the mask; the
  result is none exactly when the mask contains none of the three (an empty mask
  included). Other bits of the mask are ignored: the result is the same as on the mask
  cut down to copy, move and link.
\<close>

theorem EffectFromKeyState_in_mask:
  "(allowed AND (DROPEFFECT_COPY OR DROPEFFECT_MOVE OR DROPEFFECT_LINK) \<noteq> 0 \<longrightarrow>
      present (EffectFromKeyState key allowed) allowed \<and>
      EffectFromKeyState key allowed \<in> {DROPEFFECT_COPY, DROPEFFECT_MOVE, DROPEFFECT_LINK}) \<and>
   (EffectFromKeyState key allowed = DROPEFFECT_NONE \<longleftrightarrow>
      allowed AND (DROPEFFECT_COPY OR DROPEFFECT_MOVE OR DROPEFFECT_LINK) = 0) \<and>
   EffectFromKeyState key allowed =
     EffectFromKeyState key (allowed AND (DROPEFFECT_COPY OR DROPEFFECT_MOVE OR DROPEFFECT_LINK))"
  using EffectFromKeyState_chooses_present [of allowed key] EffectFromKeyState_and_7 [of key allowed]
  by (simp add: full_mask)

text \<open>The theorem of C1 at Ctrl held and the mask \<open>{move}\<close>: copy is not allowed, the
  result is move.\<close>

theorem EffectFromKeyState_in_mask_witness:
  "DROPEFFECT_MOVE AND (DROPEFFECT_COPY OR DROPEFFECT_MOVE OR DROPEFFECT_LINK) \<noteq> 0 \<and>
   present (EffectFromKeyState MK_CONTROL DROPEFFECT_MOVE) DROPEFFECT_MOVE \<and>
   EffectFromKeyState MK_CONTROL DROPEFFECT_MOVE = DROPEFFECT_MOVE"
  using EffectFromKeyState_in_mask [of DROPEFFECT_MOVE MK_CONTROL]
  by (simp add: effect_defs EffectFromKeyState_def ChooseAllowedEffect_def present_def)

text \<open>
  Claim C1 as stated fails on the mask \<open>DROPEFFECT_SCROLL\<close>: the mask is not empty, and the
  resolver returns none, which is not present in it.
\<close>

theorem EffectFromKeyState_scroll_mask_counterexample:
  "DROPEFFECT_SCROLL \<noteq> 0 \<and>
   EffectFromKeyState 0 DROPEFFECT_SCROLL = DROPEFFECT_NONE \<and>
   \<not> present (EffectFromKeyState 0 DROPEFFECT_SCROLL) DROPEFFECT_SCROLL"
  by (simp add: effect_defs DROPEFFECT_SCROLL_def EffectFromKeyState_def
      ChooseAllowedEffect_def present_def)

text \<open>
  Claim C7. \<open>EffectFromKeyState\<close> is a function of the key state and the mask, and it
  computes the rule of the specification: Ctrl+Shift gives link, Ctrl alone copy, Shift
  alone move, no modifier the first of copy, link, move present in the mask; an effect
  that is not present in the mask is replaced by that same priority pick; on the empty
  mask the result is none.
\<close>

theorem EffectFromKeyState_rule:
  "EffectFromKeyState key allowed =
     spec_resolve (key AND MK_CONTROL \<noteq> 0) (key AND MK_SHIFT \<noteq> 0) allowed \<and>
   EffectFromKeyState key 0 = DROPEFFECT_NONE"
  by (simp add: EffectFromKeyState_def spec_resolve_def spec_priority_pick_eq present_def
      Let_def ChooseAllowedEffect_def)

section \<open>Drag callbacks: effect written back and return value\<close>

lemma resolve_in_out_zero:
  "resolve_in_out key (Some 0) =
     Some (EffectFromKeyState key (DROPEFFECT_COPY OR DROPEFFECT_MOVE OR DROPEFFECT_LINK))"
  by (simp add: resolve_in_out_def Let_def full_mask EffectFromKeyState_none_iff)

lemma DragEnter_effect: "result_effect (DragEnter os d key pt eff s) = resolve_in_out key eff"
  by (simp add: DragEnter_def Let_def split: prod.splits)

lemma DragOver_effect: "result_effect (DragOver os key pt eff s) = resolve_in_out key eff"
  by (simp add: DragOver_def Let_def split: prod.splits)

lemma Drop_effect: "result_effect (Drop os d key pt eff s) = resolve_in_out key eff"
  by (simp add: Drop_def Let_def split: prod.splits)

lemma full_mask_effect:
  "EffectFromKeyState key (DROPEFFECT_COPY OR DROPEFFECT_MOVE OR DROPEFFECT_LINK) \<noteq> DROPEFFECT_NONE"
  "key AND MK_CONTROL = 0 \<Longrightarrow> key AND MK_SHIFT = 0 \<Longrightarrow>
   EffectFromKeyState key (DROPEFFECT_COPY OR DROPEFFECT_MOVE OR DROPEFFECT_LINK) = DROPEFFECT_COPY"
  by (simp_all add: full_mask EffectFromKeyState_none_iff)
     (simp add: EffectFromKeyState_def ChooseAllowedEffect_def effect_defs)

text \<open>
  Claim C9. Called with a non-null effect pointer that holds zero, \<open>DragEnter\<close>,
  \<open>DragOver\<close> and \<open>Drop\<close> resolve against the full mask copy|move|link: the effect written
  back is the resolver's result on that mask, it is never none, and it is copy when
  neither Ctrl nor Shift is held.
\<close>

theorem zero_mask_substituted:
  "result_effect (DragEnter os d key pt (Some 0) s) =
     Some (EffectFromKeyState key (DROPEFFECT_COPY OR DROPEFFECT_MOVE OR DROPEFFECT_LINK)) \<and>
   result_effect (DragOver os key pt (Some 0) s) =
     Some (EffectFromKeyState key (DROPEFFECT_COPY OR DROPEFFECT_MOVE OR DROPEFFECT_LINK)) \<and>
   result_effect (Drop os d key pt (Some 0) s) =
     Some (EffectFromKeyState key (DROPEFFECT_COPY OR DROPEFFECT_MOVE OR DROPEFFECT_LINK)) \<and>
   EffectFromKeyState key (DROPEFFECT_COPY OR DROPEFFECT_MOVE OR DROPEFFECT_LINK) \<noteq> DROPEFFECT_NONE \<and>
   (key AND MK_CONTROL = 0 \<and> key AND MK_SHIFT = 0 \<longrightarrow>
      EffectFromKeyState key (DROPEFFECT_COPY OR DROPEFFECT_MOVE OR DROPEFFECT_LINK) = DROPEFFECT_COPY)"
  by (simp only: DragEnter_effect DragOver_effect Drop_effect resolve_in_out_zero full_mask_effect)
     (simp add: full_mask_effect)

text \<open>The theorem of C9 with only the left mouse button (\<open>MK_LBUTTON = 1\<close>) in the key
  state: all three callbacks write copy.\<close>

theorem zero_mask_substituted_witness:
  "(1 :: DWORD) AND MK_CONTROL = 0 \<and> (1 :: DWORD) AND MK_SHIFT = 0 \<and>
   result_effect (DragEnter os_plain None 1 (100, 100) (Some 0) s_idle) = Some DROPEFFECT_COPY \<and>
   result_effect (DragOver os_plain 1 (100, 100) (Some 0) s_idle) = Some DROPEFFECT_COPY \<and>
   result_effect (Drop os_plain None 1 (100, 100) (Some 0) s_idle) = Some DROPEFFECT_COPY"
  using zero_mask_substituted [of os_plain None 1 "(100, 100)" s_idle]
  by (simp add: effect_defs)

text \<open>
  Claim C10. \<open>DragEnter\<close>, \<open>DragOver\<close>, \<open>DragLeave\<close> and \<open>Drop\<close> return \<open>S_OK\<close> whatever the
  data object (null or failing), the effect pointer (null or not) and the state are.
\<close>

theorem drag_callbacks_return_S_OK:
  "result_hr (DragEnter os d key pt eff s) = S_OK \<and>
   result_hr (DragOver os key pt eff s) = S_OK \<and>
   result_hr (DragLeave os s) = S_OK \<and>
   result_hr (Drop os d key pt eff s) = S_OK"
  by (simp add: DragEnter_def DragOver_def DragLeave_def Drop_def Let_def split: prod.splits)
section \<open>Window registry: properties\<close>

lemma IsDragging_iff: "IsDragging s \<longleftrightarrow> target s \<and> in_ole_drop s"
  by (simp add: IsDragging_def Target_IsDragging_def)

subsection \<open>The two loops of the flush\<close>

lemma fold_flush_del_registered:
  "registered (fold (flush_del os) D t) =
     registered t - {w \<in> set D. w \<noteq> 0 \<and> IsWindow os w}"
  by (induction D arbitrary: t) (auto simp: flush_del_def os_call_def Let_def)

lemma fold_flush_del_os_calls:
  "os_calls (fold (flush_del os) D t) =
     os_calls t @ map CallRevokeDragDrop (filter (\<lambda>w. w \<noteq> 0 \<and> IsWindow os w) D)"
  by (induction D arbitrary: t) (auto simp: flush_del_def os_call_def Let_def)

lemma fold_flush_del_pending_add:
  "pending_add (fold (flush_del os) D t) = pending_add t"
  by (induction D arbitrary: t) (auto simp: flush_del_def os_call_def Let_def)

lemma fold_flush_add_registered:
  "registered (fold (flush_add os) A t) =
     registered t \<union>
     {w \<in> set A. w \<noteq> 0 \<and> IsWindow os w \<and> registration_ok (RegisterDragDrop os w)}"
  by (induction A arbitrary: t) (auto simp: flush_add_def os_call_def Let_def)

lemma fold_flush_add_os_calls:
  "os_calls (fold (flush_add os) A t) =
     os_calls t @ map CallRegisterDragDrop (filter (\<lambda>w. w \<noteq> 0 \<and> IsWindow os w) A)"
  by (induction A arbitrary: t) (auto simp: flush_add_def os_call_def Let_def)

lemma FlushPendingChildOps_registered:
  "registered (FlushPendingChildOps os s) =
     (registered s - {w \<in> set (pending_del s). w \<noteq> 0 \<and> IsWindow os w}) \<union>
     {w \<in> set (pending_add s). w \<noteq> 0 \<and> IsWindow os w \<and> registration_ok (RegisterDragDrop os w)}"
  by (simp add: FlushPendingChildOps_def Let_def fold_flush_add_registered
      fold_flush_del_registered fold_flush_del_pending_add)

lemma FlushPendingChildOps_os_calls:
  "os_calls (FlushPendingChildOps os s) =
     os_calls s @
     map CallRevokeDragDrop (filter (\<lambda>w. w \<noteq> 0 \<and> IsWindow os w) (pending_del s)) @
     map CallRegisterDragDrop (filter (\<lambda>w. w \<noteq> 0 \<and> IsWindow os w) (pending_add s))"
  by (simp add: FlushPendingChildOps_def Let_def fold_flush_add_os_calls
      fold_flush_del_os_calls fold_flush_del_pending_add)

lemma FlushPendingChildOps_queues:
  "pending_add (FlushPendingChildOps os s) = [] \<and> pending_del (FlushPendingChildOps os s) = []"
proof -
  have "pending_del (fold (flush_add os) A t) = pending_del t" for A t
    by (induction A arbitrary: t) (auto simp: flush_add_def os_call_def Let_def)
  then show ?thesis by (simp add: FlushPendingChildOps_def Let_def)
qed

subsection \<open>registerWindow\<close>

text \<open>
  Claim C8, as the code has it. \<open>RegisterOnWindow\<close> leaves the state as it is for a null
  or an already registered handle. During a drag session it appends the handle to the
  add-queue and does nothing else; a handle that is already on the add-queue is appended
  again (the queue is not deduplicated), which makes no difference to the registered set
  after the flush. Outside a session it calls \<open>RegisterDragDrop\<close> once and adds the handle
  to the registered set exactly when the call succeeds or answers
  \<open>DRAGDROP_E_ALREADYREGISTERED\<close>.
\<close>

theorem RegisterOnWindow_cases:
  "(w = 0 \<or> w \<in> registered s \<longrightarrow> RegisterOnWindow os w s = s) \<and>
   (w \<noteq> 0 \<and> w \<notin> registered s \<and> IsDragging s \<longrightarrow>
      RegisterOnWindow os w s = s\<lparr>pending_add := pending_add s @ [w]\<rparr>) \<and>
   (w \<noteq> 0 \<and> w \<notin> registered s \<and> IsDragging s \<and> w \<in> set (pending_add s) \<longrightarrow>
      registered (FlushPendingChildOps os' (RegisterOnWindow os w s)) =
      registered (FlushPendingChildOps os' s)) \<and>
   (w \<noteq> 0 \<and> w \<notin> registered s \<and> \<not> IsDragging s \<longrightarrow>
      os_calls (RegisterOnWindow os w s) = os_calls s @ [CallRegisterDragDrop w] \<and>
      pending_add (RegisterOnWindow os w s) = pending_add s \<and>
      registered (RegisterOnWindow os w s) =
        (if SUCCEEDED (RegisterDragDrop os w) \<or>
            RegisterDragDrop os w = DRAGDROP_E_ALREADYREGISTERED
         then insert w (registered s) else registered s))"
proof -
  have "registered (FlushPendingChildOps os' (s\<lparr>pending_add := pending_add s @ [w]\<rparr>)) =
        registered (FlushPendingChildOps os' s)" if "w \<in> set (pending_add s)"
    using that by (auto simp: FlushPendingChildOps_registered)
  then show ?thesis
    by (simp add: RegisterOnWindow_def Let_def os_call_def registration_ok_def)
qed

text \<open>The theorem of C8 at a null handle, at the registered root, at handle \<open>3\<close> during a
  session in which it is already queued, and at handle \<open>3\<close> outside a session with a
  registration that succeeds and one that fails.\<close>

theorem RegisterOnWindow_cases_witness:
  "RegisterOnWindow os_plain 0 s_idle = s_idle \<and>
   RegisterOnWindow os_plain 1 s_idle = s_idle \<and>
   IsDragging s_queued \<and> 3 \<in> set (pending_add s_queued) \<and>
   RegisterOnWindow os_plain 3 s_queued = s_queued\<lparr>pending_add := pending_add s_queued @ [3]\<rparr> \<and>
   registered (FlushPendingChildOps os_plain (RegisterOnWindow os_plain 3 s_queued)) =
     registered (FlushPendingChildOps os_plain s_queued) \<and>
   \<not> IsDragging s_idle \<and>
   os_calls (RegisterOnWindow os_plain 3 s_idle) = os_calls s_idle @ [CallRegisterDragDrop 3] \<and>
   registered (RegisterOnWindow os_plain 3 s_idle) = insert 3 (registered s_idle) \<and>
   registered (RegisterOnWindow os_failing 3 s_idle) = registered s_idle"
proof -
  have q: "IsDragging s_queued" "3 \<notin> registered s_queued" "3 \<in> set (pending_add s_queued)"
    by (simp_all add: s_queued_def s_session_def s_idle_def IsDragging_def Target_IsDragging_def)
  have i: "\<not> IsDragging s_idle" "3 \<notin> registered s_idle" "1 \<in> registered s_idle"
    by (simp_all add: s_idle_def IsDragging_def Target_IsDragging_def)
  have ok: "SUCCEEDED (RegisterDragDrop os_plain 3)"
    by (simp add: os_plain_def SUCCEEDED_def S_OK_def)
  have bad: "\<not> SUCCEEDED (RegisterDragDrop os_failing 3)"
    "RegisterDragDrop os_failing 3 \<noteq> DRAGDROP_E_ALREADYREGISTERED"
    by (simp_all add: os_failing_def os_plain_def SUCCEEDED_def E_FAIL_def
        DRAGDROP_E_ALREADYREGISTERED_def)
  from RegisterOnWindow_cases [of 0 s_idle os_plain os_plain]
  have 1: "RegisterOnWindow os_plain 0 s_idle = s_idle" by simp
  from RegisterOnWindow_cases [of 1 s_idle os_plain os_plain] i
  have 2: "RegisterOnWindow os_plain 1 s_idle = s_idle" by simp
  have nz: "(3::nat) \<noteq> 0" by simp
  from RegisterOnWindow_cases [of 3 s_queued os_plain os_plain] q nz
  have 3: "RegisterOnWindow os_plain 3 s_queued = s_queued\<lparr>pending_add := pending_add s_queued @ [3]\<rparr>"
    "registered (FlushPendingChildOps os_plain (RegisterOnWindow os_plain 3 s_queued)) =
     registered (FlushPendingChildOps os_plain s_queued)"
    by blast+
  from RegisterOnWindow_cases [of 3 s_idle os_plain os_plain] i ok
  have 4: "os_calls (RegisterOnWindow os_plain 3 s_idle) = os_calls s_idle @ [CallRegisterDragDrop 3]"
    "registered (RegisterOnWindow os_plain 3 s_idle) = insert 3 (registered s_idle)"
    by simp_all
  from RegisterOnWindow_cases [of 3 s_idle os_failing os_plain] i bad
  have 5: "registered (RegisterOnWindow os_failing 3 s_idle) = registered s_idle"
    by simp
  from 1 2 3 4 5 q i show ?thesis by simp
qed

text \<open>
  Claim C8 as stated fails: re-enqueuing is not without effect on the state, the add-queue
  holds the handle twice afterwards.
\<close>

theorem RegisterOnWindow_requeue_counterexample:
  "IsDragging s_session \<and>
   pending_add (RegisterOnWindow os_plain 3 s_session) = [3] \<and>
   pending_add (RegisterOnWindow os_plain 3 (RegisterOnWindow os_plain 3 s_session)) = [3, 3] \<and>
   RegisterOnWindow os_plain 3 (RegisterOnWindow os_plain 3 s_session) \<noteq>
   RegisterOnWindow os_plain 3 s_session"
proof -
  have a: "pending_add (RegisterOnWindow os_plain 3 s_session) = [3]"
    by (simp add: RegisterOnWindow_def s_session_def s_idle_def IsDragging_def
        Target_IsDragging_def)
  have b: "pending_add (RegisterOnWindow os_plain 3 (RegisterOnWindow os_plain 3 s_session)) = [3, 3]"
    by (simp add: RegisterOnWindow_def s_session_def s_idle_def IsDragging_def
        Target_IsDragging_def)
  have c: "IsDragging s_session"
    by (simp add: s_session_def s_idle_def IsDragging_def Target_IsDragging_def)
  from a b have "RegisterOnWindow os_plain 3 (RegisterOnWindow os_plain 3 s_session) \<noteq>
   RegisterOnWindow os_plain 3 s_session" by auto
  with a b c show ?thesis by simp
qed

subsection \<open>A child window destroyed during a session\<close>

text \<open>
  Claim C3, on the code. Child \<open>2\<close> is registered and a session is active; the root
  receives \<open>WM_PARENTNOTIFY\<close>/\<open>WM_DESTROY\<close> for it, which puts the handle on the
  delete-queue; the window is gone when the session ends with \<open>DragLeave\<close>. The flush
  makes no revoke call for the handle and empties the queue, but the handle is still in
  the registered set: the removal is inside the test that the handle is a window.
\<close>

theorem destroyed_child_stays_registered:
  "IsDragging s_session \<and> 2 \<in> registered s_session \<and>
   pending_del (RootSubclassProc os_plain (WM_PARENTNOTIFY_DESTROY 2) s_session) = [2] \<and>
   \<not> IsWindow os_child_gone 2 \<and>
   registered (result_state (DragLeave os_child_gone
      (RootSubclassProc os_plain (WM_PARENTNOTIFY_DESTROY 2) s_session))) = {1, 2} \<and>
   pending_del (result_state (DragLeave os_child_gone
      (RootSubclassProc os_plain (WM_PARENTNOTIFY_DESTROY 2) s_session))) = [] \<and>
   os_calls (result_state (DragLeave os_child_gone
      (RootSubclassProc os_plain (WM_PARENTNOTIFY_DESTROY 2) s_session))) =
     [CallDragAcceptFiles 2 False]"
  by (simp add: s_session_def s_idle_def os_plain_def os_child_gone_def IsDragging_def
      Target_IsDragging_def RootSubclassProc_def RevokeOnWindow_def DragLeave_def
      OnDragSessionEnd_def FlushPendingChildOps_def flush_del_def flush_add_def
      PostUiEvent_def prim_defs Let_def)


subsection \<open>Requests during a session and the flush\<close>

lemma apply_request_session:
  assumes "IsDragging s"
  shows "apply_request os r s =
     s\<lparr>pending_add := pending_add s @ filter (\<lambda>w. w \<noteq> 0 \<and> w \<notin> registered s) (requested_adds [r]),
       pending_del := pending_del s @ filter (\<lambda>w. w \<noteq> 0 \<and> w \<in> registered s) (requested_dels [r])\<rparr>"
  using assms by (cases r) (simp_all add: RegisterOnWindow_def RevokeOnWindow_def)

lemma requested_adds_Cons: "requested_adds (r # rs) = requested_adds [r] @ requested_adds rs"
  by (cases r) simp_all

lemma requested_dels_Cons: "requested_dels (r # rs) = requested_dels [r] @ requested_dels rs"
  by (cases r) simp_all

lemma fold_apply_request_session:
  assumes "IsDragging s"
  shows "fold (apply_request os) reqs s =
     s\<lparr>pending_add := pending_add s @ filter (\<lambda>w. w \<noteq> 0 \<and> w \<notin> registered s) (requested_adds reqs),
       pending_del := pending_del s @ filter (\<lambda>w. w \<noteq> 0 \<and> w \<in> registered s) (requested_dels reqs)\<rparr>"
  using assms
proof (induction reqs arbitrary: s)
  case Nil
  then show ?case by simp
next
  case (Cons r rs)
  let ?t = "apply_request os r s"
  have t: "?t = s\<lparr>pending_add := pending_add s @ filter (\<lambda>w. w \<noteq> 0 \<and> w \<notin> registered s) (requested_adds [r]),
       pending_del := pending_del s @ filter (\<lambda>w. w \<noteq> 0 \<and> w \<in> registered s) (requested_dels [r])\<rparr>"
    by (rule apply_request_session [OF Cons.prems])
  have d: "IsDragging ?t"
    by (subst t) (use Cons.prems in \<open>simp add: IsDragging_iff\<close>)
  have reg: "registered ?t = registered s"
    by (subst t) simp
  have "fold (apply_request os) (r # rs) s = fold (apply_request os) rs ?t" by simp
  also have "\<dots> = ?t\<lparr>pending_add := pending_add ?t @ filter (\<lambda>w. w \<noteq> 0 \<and> w \<notin> registered ?t) (requested_adds rs),
       pending_del := pending_del ?t @ filter (\<lambda>w. w \<noteq> 0 \<and> w \<in> registered ?t) (requested_dels rs)\<rparr>"
    by (rule Cons.IH [OF d])
  also have "\<dots> = s\<lparr>pending_add := pending_add s @ filter (\<lambda>w. w \<noteq> 0 \<and> w \<notin> registered s) (requested_adds (r # rs)),
       pending_del := pending_del s @ filter (\<lambda>w. w \<noteq> 0 \<and> w \<in> registered s) (requested_dels (r # rs))\<rparr>"
    unfolding reg
    by (subst (1 2 3) t, subst requested_adds_Cons, subst requested_dels_Cons) simp
  finally show ?case .
qed

lemma fold_spec_revokeWindow: "fold spec_revokeWindow D R = R - set D"
  by (induction D arbitrary: R) (auto simp: spec_revokeWindow_def)

lemma fold_spec_registerWindow:
  "fold (spec_registerWindow os) A R =
     R \<union> {w \<in> set A. w \<noteq> 0 \<and> IsWindow os w \<and> registration_ok (RegisterDragDrop os w)}"
  by (induction A arbitrary: R) (auto simp: spec_registerWindow_def)

lemma spec_flushed_set_eq:
  "spec_flushed_set os reqs R =
     (R - set (requested_dels reqs)) \<union>
     {w \<in> set (requested_adds reqs).
        w \<noteq> 0 \<and> IsWindow os w \<and> registration_ok (RegisterDragDrop os w)}"
  by (simp add: spec_flushed_set_def fold_spec_revokeWindow fold_spec_registerWindow)

text \<open>
  Claim C2, as the code has it. Take a session that starts with empty queues, and any
  sequence of register and revoke requests made during it, such that every revoked handle
  that is registered is still a window when the session ends, and no registered handle is
  both revoked and registered with a registration that would be accepted. The requests
  only fill the two queues, in request order. The flush then makes the revoke calls of the
  delete-queue first, in queue order, then the register calls of the add-queue, in queue
  order, empties both queues, and leaves the registered set that results from applying
  every requested mutation once, the deletes before the adds.
\<close>

theorem flush_applies_session_requests:
  assumes session: "IsDragging s"
    and empty: "pending_add s = []" "pending_del s = []"
    and live: "\<forall>w \<in> set (requested_dels reqs). w \<in> registered s \<longrightarrow> w \<noteq> 0 \<and> IsWindow os w"
    and clash: "\<forall>w \<in> set (requested_adds reqs) \<inter> set (requested_dels reqs).
                  w \<in> registered s \<longrightarrow> \<not> registration_ok (RegisterDragDrop os w)"
  shows "pending_del (fold (apply_request os0) reqs s) =
           filter (\<lambda>w. w \<noteq> 0 \<and> w \<in> registered s) (requested_dels reqs) \<and>
         pending_add (fold (apply_request os0) reqs s) =
           filter (\<lambda>w. w \<noteq> 0 \<and> w \<notin> registered s) (requested_adds reqs) \<and>
         registered (fold (apply_request os0) reqs s) = registered s \<and>
         os_calls (FlushPendingChildOps os (fold (apply_request os0) reqs s)) =
           os_calls s @
           map CallRevokeDragDrop (filter (\<lambda>w. w \<noteq> 0 \<and> IsWindow os w)
             (pending_del (fold (apply_request os0) reqs s))) @
           map CallRegisterDragDrop (filter (\<lambda>w. w \<noteq> 0 \<and> IsWindow os w)
             (pending_add (fold (apply_request os0) reqs s))) \<and>
         pending_del (FlushPendingChildOps os (fold (apply_request os0) reqs s)) = [] \<and>
         pending_add (FlushPendingChildOps os (fold (apply_request os0) reqs s)) = [] \<and>
         registered (FlushPendingChildOps os (fold (apply_request os0) reqs s)) =
           spec_flushed_set os reqs (registered s)"
proof -
  let ?t = "fold (apply_request os0) reqs s"
  have t: "?t = s\<lparr>pending_add := filter (\<lambda>w. w \<noteq> 0 \<and> w \<notin> registered s) (requested_adds reqs),
       pending_del := filter (\<lambda>w. w \<noteq> 0 \<and> w \<in> registered s) (requested_dels reqs)\<rparr>"
    using fold_apply_request_session [OF session, of os0 reqs] empty by simp
  have q: "pending_del ?t = filter (\<lambda>w. w \<noteq> 0 \<and> w \<in> registered s) (requested_dels reqs)"
    "pending_add ?t = filter (\<lambda>w. w \<noteq> 0 \<and> w \<notin> registered s) (requested_adds reqs)"
    "registered ?t = registered s" "os_calls ?t = os_calls s"
    by (simp_all add: t)
  have "registered (FlushPendingChildOps os ?t) = spec_flushed_set os reqs (registered s)"
    unfolding FlushPendingChildOps_registered spec_flushed_set_eq q
    using live clash by auto
  then show ?thesis
    using q FlushPendingChildOps_queues [of os ?t] FlushPendingChildOps_os_calls [of os ?t]
    by simp
qed

text \<open>The theorem of C2 at the requests register \<open>3\<close>, revoke \<open>2\<close>, register \<open>4\<close>,
  revoke \<open>3\<close>: handle \<open>3\<close> is both registered and revoked, and was not registered before.\<close>

theorem flush_applies_session_requests_witness:
  "IsDragging s_session \<and> pending_add s_session = [] \<and> pending_del s_session = [] \<and>
   set (requested_dels [ReqRegister 3, ReqRevoke 2, ReqRegister 4, ReqRevoke 3]) \<inter>
     registered s_session = {2} \<and>
   IsWindow os_plain 2 \<and>
   set (requested_adds [ReqRegister 3, ReqRevoke 2, ReqRegister 4, ReqRevoke 3]) \<inter>
     set (requested_dels [ReqRegister 3, ReqRevoke 2, ReqRegister 4, ReqRevoke 3]) \<inter>
     registered s_session = {} \<and>
   os_calls (FlushPendingChildOps os_plain
      (fold (apply_request os_plain) [ReqRegister 3, ReqRevoke 2, ReqRegister 4, ReqRevoke 3]
         s_session)) =
     [CallRevokeDragDrop 2, CallRegisterDragDrop 3, CallRegisterDragDrop 4] \<and>
   registered (FlushPendingChildOps os_plain
      (fold (apply_request os_plain) [ReqRegister 3, ReqRevoke 2, ReqRegister 4, ReqRevoke 3]
         s_session)) =
     spec_flushed_set os_plain [ReqRegister 3, ReqRevoke 2, ReqRegister 4, ReqRevoke 3]
       (registered s_session) \<and>
   spec_flushed_set os_plain [ReqRegister 3, ReqRevoke 2, ReqRegister 4, ReqRevoke 3]
       (registered s_session) = {1, 3, 4}"
proof -
  let ?reqs = "[ReqRegister 3, ReqRevoke 2, ReqRegister 4, ReqRevoke 3]"
  have h: "IsDragging s_session" "pending_add s_session = []" "pending_del s_session = []"
    by (simp_all add: s_session_def s_idle_def IsDragging_def Target_IsDragging_def)
  have r: "registered s_session = {1, 2}" "os_calls s_session = []"
    by (simp_all add: s_session_def s_idle_def)
  have d: "set (requested_dels ?reqs) \<inter> registered s_session = {2}"
    "set (requested_adds ?reqs) \<inter> set (requested_dels ?reqs) \<inter> registered s_session = {}"
    by (auto simp add: r)
  have w: "IsWindow os_plain 2" by (simp add: os_plain_def)
  have l: "\<forall>w \<in> set (requested_dels ?reqs). w \<in> registered s_session \<longrightarrow> w \<noteq> 0 \<and> IsWindow os_plain w"
    by (simp add: os_plain_def r)
  have c: "\<forall>w \<in> set (requested_adds ?reqs) \<inter> set (requested_dels ?reqs).
      w \<in> registered s_session \<longrightarrow> \<not> registration_ok (RegisterDragDrop os_plain w)"
    by (simp add: r)
  note T = flush_applies_session_requests [OF h l c, of os_plain]
  have o: "os_calls (FlushPendingChildOps os_plain (fold (apply_request os_plain) ?reqs s_session)) =
     [CallRevokeDragDrop 2, CallRegisterDragDrop 3, CallRegisterDragDrop 4]"
    using T by (simp add: r os_plain_def)
  have e: "spec_flushed_set os_plain ?reqs (registered s_session) = {1, 3, 4}"
    by (auto simp add: r spec_flushed_set_def spec_revokeWindow_def spec_registerWindow_def
        os_plain_def registration_ok_def SUCCEEDED_def S_OK_def)
  from T h d w o e show ?thesis by simp
qed

text \<open>
  Claim C2 as stated fails when a registered handle is revoked and registered again in one
  session, every window alive and every call succeeding: the register request finds the
  handle still in the registered set and is dropped, so the flush only revokes. Applying
  both mutations, the delete before the add, leaves the handle registered.
\<close>

theorem revoke_then_register_counterexample:
  "IsDragging s_session \<and> pending_add s_session = [] \<and> pending_del s_session = [] \<and>
   registered (FlushPendingChildOps os_plain
      (fold (apply_request os_plain) [ReqRevoke 2, ReqRegister 2] s_session)) = {1} \<and>
   spec_flushed_set os_plain [ReqRevoke 2, ReqRegister 2] (registered s_session) = {1, 2}"
proof -
  have h: "IsDragging s_session" "pending_add s_session = []" "pending_del s_session = []"
    by (simp_all add: s_session_def s_idle_def IsDragging_def Target_IsDragging_def)
  have r: "registered s_session = {1, 2}"
    by (simp add: s_session_def s_idle_def)
  have a: "registered (FlushPendingChildOps os_plain
      (fold (apply_request os_plain) [ReqRevoke 2, ReqRegister 2] s_session)) = {1}"
    unfolding FlushPendingChildOps_registered
      fold_apply_request_session [OF h(1), of os_plain "[ReqRevoke 2, ReqRegister 2]"]
    by (auto simp add: h r os_plain_def)
  have b: "spec_flushed_set os_plain [ReqRevoke 2, ReqRegister 2] (registered s_session) = {1, 2}"
    by (auto simp add: r spec_flushed_set_def spec_revokeWindow_def spec_registerWindow_def
        os_plain_def registration_ok_def SUCCEEDED_def S_OK_def)
  from h a b show ?thesis by simp
qed

section \<open>Event dispatch and the legacy drop: properties\<close>

text \<open>
  Claim C5, on the code. \<open>Drop\<close> is called when the root window no longer exists. Both
  payloads are discarded by \<open>PostUiEvent\<close>: nothing is queued and nothing is delivered, and
  no payload is left on the heap. The file list the \<open>Performed\<close> payload owned is still
  allocated: \<open>delete ev\<close> frees the payload alone, and nothing refers to the list any more.
\<close>

theorem Performed_discard_leaks_file_list:
  "\<not> root_valid os_root_gone s_session \<and>
   msg_queue (result_state (Drop os_root_gone (Some data_ab) 0 (0, 0) None s_session)) = [] \<and>
   invoked (result_state (Drop os_root_gone (Some data_ab) 0 (0, 0) None s_session)) = [] \<and>
   ev_heap (result_state (Drop os_root_gone (Some data_ab) 0 (0, 0) None s_session)) = Map.empty \<and>
   list_heap (result_state (Drop os_root_gone (Some data_ab) 0 (0, 0) None s_session)) 0 =
     Some [''ab'']"
proof -
  have f: "drop_files os_root_gone (Some data_ab) = [''ab'']"
    by (simp add: drop_files_def data_ab_def ws2s_def os_root_gone_simps os_plain_simps
        read_path_def MAX_PATH_def Let_def)
  show ?thesis
    by (simp add: Drop_def f PostUiEvent_def OnDragSessionEnd_def FlushPendingChildOps_def
        RequestReRegisterAll_def root_valid_def os_root_gone_simps os_plain_simps
        s_session_simps prim_defs Let_def fun_eq_iff)
qed

lemma HandleDropFiles_suppressed:
  "Target_IsDragging s \<or> NowMs os 0 - last_drop_ms s < 200 \<Longrightarrow> HandleDropFiles os hdrop s = s"
  by (auto simp: HandleDropFiles_def Let_def)

lemma HandleDropFiles_passed:
  assumes "\<not> Target_IsDragging s" "\<not> NowMs os 0 - last_drop_ms s < 200" "root_valid os s"
  shows "HandleDropFiles os hdrop s =
     s\<lparr>msg_queue := msg_queue s @ [kMsgFireUiEvent (next_addr s), kMsgFireUiEvent (next_addr s + 2),
                       kMsgFireUiEvent (next_addr s + 3), kMsgDoReRegister],
       ev_heap := (ev_heap s)
         (next_addr s \<mapsto> \<lparr>ev_type = Entered,
              ev_x = fst (if hdrop_in_client hdrop then hdrop_point hdrop
                          else ScreenToClient os (window_handle s) (hdrop_point hdrop)),
              ev_y = snd (if hdrop_in_client hdrop then hdrop_point hdrop
                          else ScreenToClient os (window_handle s) (hdrop_point hdrop)),
              ev_files = None\<rparr>,
          next_addr s + 2 \<mapsto> \<lparr>ev_type = Performed, ev_x = 0, ev_y = 0,
              ev_files = Some (next_addr s + 1)\<rparr>,
          next_addr s + 3 \<mapsto> \<lparr>ev_type = Exited, ev_x = 0, ev_y = 0, ev_files = None\<rparr>),
       list_heap := (list_heap s)
         (next_addr s + 1 \<mapsto> map (\<lambda>f. ws2s os (read_path f)) (hdrop_files hdrop)),
       next_addr := next_addr s + 4,
       pending_re_reg := True,
       last_drop_ms := NowMs os 1\<rparr>"
proof -
  from assms(3) have r: "root s \<noteq> 0" "IsWindow os (root s)"
    by (simp_all add: root_valid_def)
  show ?thesis
    using assms(1,2) r
    by (simp add: HandleDropFiles_def PostUiEvent_def RequestReRegisterAll_def prim_defs Let_def
        eval_nat_numeral)
qed

text \<open>
  Claim C6. \<open>HandleDropFiles\<close> returns the state as it got it, with nothing posted, when
  a session is active or when the clock is less than 200 ms past the last drop time.
  Otherwise, the root window being there to post to, it appends to the message queue an
  \<open>Entered\<close> payload at the drop point, a \<open>Performed\<close> payload that owns the list of all
  files of the handle, in order, an \<open>Exited\<close> payload and the deferred re-registration
  message, sets the pending re-registration flag, and stores the second clock reading as
  the last drop time.
\<close>

theorem HandleDropFiles_cases:
  "(Target_IsDragging s \<or> NowMs os 0 - last_drop_ms s < 200 \<longrightarrow>
      HandleDropFiles os hdrop s = s) \<and>
   (\<not> Target_IsDragging s \<and> \<not> NowMs os 0 - last_drop_ms s < 200 \<and> root_valid os s \<longrightarrow>
      msg_queue (HandleDropFiles os hdrop s) =
        msg_queue s @ [kMsgFireUiEvent (next_addr s), kMsgFireUiEvent (next_addr s + 2),
                       kMsgFireUiEvent (next_addr s + 3), kMsgDoReRegister] \<and>
      ev_heap (HandleDropFiles os hdrop s) (next_addr s) =
        Some \<lparr>ev_type = Entered,
              ev_x = fst (if hdrop_in_client hdrop then hdrop_point hdrop
                          else ScreenToClient os (window_handle s) (hdrop_point hdrop)),
              ev_y = snd (if hdrop_in_client hdrop then hdrop_point hdrop
                          else ScreenToClient os (window_handle s) (hdrop_point hdrop)),
              ev_files = None\<rparr> \<and>
      ev_heap (HandleDropFiles os hdrop s) (next_addr s + 2) =
        Some \<lparr>ev_type = Performed, ev_x = 0, ev_y = 0, ev_files = Some (next_addr s + 1)\<rparr> \<and>
      list_heap (HandleDropFiles os hdrop s) (next_addr s + 1) =
        Some (map (\<lambda>f. ws2s os (read_path f)) (hdrop_files hdrop)) \<and>
      ev_heap (HandleDropFiles os hdrop s) (next_addr s + 3) =
        Some \<lparr>ev_type = Exited, ev_x = 0, ev_y = 0, ev_files = None\<rparr> \<and>
      pending_re_reg (HandleDropFiles os hdrop s) \<and>
      last_drop_ms (HandleDropFiles os hdrop s) = NowMs os 1)"
proof -
  have "HandleDropFiles os hdrop s = s"
    if "Target_IsDragging s \<or> NowMs os 0 - last_drop_ms s < 200"
    using that by (rule HandleDropFiles_suppressed)
  moreover note HandleDropFiles_passed [of s os hdrop]
  ultimately show ?thesis by simp
qed


text \<open>The theorem of C6 during a session, 100 ms after a drop, and 1000 ms after the
  last drop with two files in the handle.\<close>

theorem HandleDropFiles_cases_witness:
  "Target_IsDragging s_session \<and> HandleDropFiles os_plain hdrop_ab s_session = s_session \<and>
   NowMs os_plain 0 - last_drop_ms s_recent < 200 \<and>
   HandleDropFiles os_plain hdrop_ab s_recent = s_recent \<and>
   \<not> Target_IsDragging s_idle \<and> \<not> NowMs os_plain 0 - last_drop_ms s_idle < 200 \<and>
   root_valid os_plain s_idle \<and>
   msg_queue (HandleDropFiles os_plain hdrop_ab s_idle) =
     [kMsgFireUiEvent 0, kMsgFireUiEvent 2, kMsgFireUiEvent 3, kMsgDoReRegister] \<and>
   ev_heap (HandleDropFiles os_plain hdrop_ab s_idle) 0 =
     Some \<lparr>ev_type = Entered, ev_x = 10, ev_y = 20, ev_files = None\<rparr> \<and>
   list_heap (HandleDropFiles os_plain hdrop_ab s_idle) 1 = Some [''ab'', ''a''] \<and>
   pending_re_reg (HandleDropFiles os_plain hdrop_ab s_idle) \<and>
   last_drop_ms (HandleDropFiles os_plain hdrop_ab s_idle) = 1001"
proof -
  have a: "Target_IsDragging s_session"
    by (simp add: Target_IsDragging_def s_session_simps)
  have b: "NowMs os_plain 0 - last_drop_ms s_recent < 200"
    by (simp add: os_plain_simps s_recent_def s_idle_def)
  have c: "\<not> Target_IsDragging s_idle" "\<not> NowMs os_plain 0 - last_drop_ms s_idle < 200"
    "root_valid os_plain s_idle"
    by (simp_all add: Target_IsDragging_def os_plain_simps s_idle_simps root_valid_def)
  have v: "next_addr s_idle = 0" "msg_queue s_idle = []" "NowMs os_plain (Suc 0) = 1001"
    "hdrop_in_client hdrop_ab" "hdrop_point hdrop_ab = (10, 20)"
    "map (\<lambda>f. ws2s os_plain (read_path f)) (hdrop_files hdrop_ab) = [''ab'', ''a'']"
    by (simp_all add: s_idle_simps os_plain_simps hdrop_ab_def ws2s_plain)
  from HandleDropFiles_cases [of s_session os_plain hdrop_ab] a
  have 1: "HandleDropFiles os_plain hdrop_ab s_session = s_session" by blast
  from HandleDropFiles_cases [of s_recent os_plain hdrop_ab] b
  have 2: "HandleDropFiles os_plain hdrop_ab s_recent = s_recent" by blast
  from HandleDropFiles_cases [of s_idle os_plain hdrop_ab] c
  have 3: "msg_queue (HandleDropFiles os_plain hdrop_ab s_idle) =
     [kMsgFireUiEvent 0, kMsgFireUiEvent 2, kMsgFireUiEvent 3, kMsgDoReRegister]"
    "ev_heap (HandleDropFiles os_plain hdrop_ab s_idle) 0 =
     Some \<lparr>ev_type = Entered, ev_x = 10, ev_y = 20, ev_files = None\<rparr>"
    "list_heap (HandleDropFiles os_plain hdrop_ab s_idle) 1 = Some [''ab'', ''a'']"
    "pending_re_reg (HandleDropFiles os_plain hdrop_ab s_idle)"
    "last_drop_ms (HandleDropFiles os_plain hdrop_ab s_idle) = 1001"
    by (simp_all add: v)
  from a b c 1 2 3 show ?thesis by simp
qed

section \<open>Deferred re-registration: properties\<close>

lemma same_control_refl: "same_control s s"
  by (simp add: same_control_def)

lemma same_control_trans: "same_control s t \<Longrightarrow> same_control t u \<Longrightarrow> same_control s u"
  by (simp add: same_control_def)

lemma same_control_fold:
  assumes "\<And>w t. same_control t (f w t)"
  shows "same_control s (fold f ws s)"
proof (induction ws arbitrary: s)
  case Nil
  show ?case by (simp add: same_control_refl)
next
  case (Cons w ws)
  have "same_control s (f w s)" by (rule assms)
  moreover have "same_control (f w s) (fold f ws (f w s))" by (rule Cons.IH)
  ultimately show ?case by (simp add: same_control_trans)
qed

lemma count_sweeps_os_call:
  "count_sweeps (os_call c s) = count_sweeps s + (if c = LogForceReRegisterAllBegin then 1 else 0)"
  by (simp add: count_sweeps_def os_call_def)

lemma same_control_RegisterOnWindow: "same_control s (RegisterOnWindow os w s)"
  by (simp add: same_control_def RegisterOnWindow_def Let_def count_sweeps_def os_call_def)

lemma same_control_RevokeOnWindow: "same_control s (RevokeOnWindow os w s)"
  by (simp add: same_control_def RevokeOnWindow_def Let_def count_sweeps_def os_call_def)

lemma same_control_DoReRegister: "same_control s (DoReRegister os w s)"
  by (simp add: same_control_def DoReRegister_def Let_def count_sweeps_def os_call_def)

lemma same_control_EnumChildProc: "same_control s (EnumChildProc os w s)"
  by (simp add: same_control_def EnumChildProc_def RegisterOnWindow_def Let_def
      count_sweeps_def os_call_def)

lemma same_control_flush_del: "same_control s (flush_del os w s)"
  by (simp add: same_control_def flush_del_def Let_def count_sweeps_def os_call_def)

lemma same_control_flush_add: "same_control s (flush_add os w s)"
  by (simp add: same_control_def flush_add_def Let_def count_sweeps_def os_call_def)

lemma same_control_FlushPendingChildOps: "same_control s (FlushPendingChildOps os s)"
proof -
  let ?s1 = "fold (flush_del os) (pending_del s) s"
  let ?s2 = "?s1\<lparr>pending_del := []\<rparr>"
  let ?s3 = "fold (flush_add os) (pending_add ?s2) ?s2"
  have 1: "same_control s ?s1"
    by (rule same_control_fold) (rule same_control_flush_del)
  have 2: "same_control ?s1 ?s2"
    by (simp add: same_control_def count_sweeps_def)
  have 3: "same_control ?s2 ?s3"
    by (rule same_control_fold) (rule same_control_flush_add)
  have 4: "same_control ?s3 (?s3\<lparr>pending_add := []\<rparr>)"
    by (simp add: same_control_def count_sweeps_def)
  have "FlushPendingChildOps os s = ?s3\<lparr>pending_add := []\<rparr>"
    by (simp add: FlushPendingChildOps_def Let_def)
  with same_control_trans [OF same_control_trans [OF same_control_trans [OF 1 2] 3] 4]
  show ?thesis by simp
qed

lemma same_control_DeliverUiEvent: "same_control s (DeliverUiEvent ev s)"
  by (simp add: same_control_def DeliverUiEvent_def InvokeMethod_def delete_list_def
      count_sweeps_def split: option.splits UiEventType.splits)

lemma ForceReRegisterAll_control:
  assumes "root_valid os s"
  shows "root (ForceReRegisterAll os s) = root s \<and>
         target (ForceReRegisterAll os s) = target s \<and>
         in_ole_drop (ForceReRegisterAll os s) = in_ole_drop s \<and>
         pending_re_reg (ForceReRegisterAll os s) = pending_re_reg s \<and>
         msg_queue (ForceReRegisterAll os s) = msg_queue s \<and>
         count_sweeps (ForceReRegisterAll os s) = count_sweeps s + 1"
proof -
  let ?s0 = "os_call LogForceReRegisterAllBegin s"
  let ?s1 = "DoReRegister os (root ?s0) ?s0"
  let ?f = "\<lambda>w t. if w \<noteq> 0 \<and> IsWindow os w \<and> w \<noteq> root t then DoReRegister os w t else t"
  let ?s2 = "fold ?f (unordered_iteration os (registered ?s0)) ?s1"
  let ?s3 = "fold (EnumChildProc os) (EnumChildWindows os (root ?s2)) ?s2"
  let ?s4 = "os_call (CallDragAcceptFiles (root ?s3) True) ?s3"
  have e: "ForceReRegisterAll os s = ?s4"
    using assms by (simp add: ForceReRegisterAll_def root_valid_def Let_def)
  have 1: "same_control ?s0 ?s1" by (rule same_control_DoReRegister)
  have 2: "same_control ?s1 ?s2"
    by (rule same_control_fold) (simp add: same_control_DoReRegister same_control_refl)
  have 3: "same_control ?s2 ?s3"
    by (rule same_control_fold) (rule same_control_EnumChildProc)
  have 4: "same_control ?s3 ?s4"
    by (simp add: same_control_def count_sweeps_def os_call_def)
  have "same_control ?s0 ?s4"
    by (rule same_control_trans [OF same_control_trans [OF same_control_trans [OF 1 2] 3] 4])
  moreover have "root ?s0 = root s" "target ?s0 = target s" "in_ole_drop ?s0 = in_ole_drop s"
    "pending_re_reg ?s0 = pending_re_reg s" "msg_queue ?s0 = msg_queue s"
    "count_sweeps ?s0 = count_sweeps s + 1"
    by (simp_all add: os_call_def count_sweeps_def)
  ultimately show ?thesis
    unfolding e by (simp add: same_control_def)
qed

lemma ForceReRegisterAll_no_root:
  "\<not> root_valid os s \<Longrightarrow> ForceReRegisterAll os s = s"
  by (auto simp: ForceReRegisterAll_def root_valid_def)

lemma IsDragging_cong:
  "target t = target s \<Longrightarrow> in_ole_drop t = in_ole_drop s \<Longrightarrow> IsDragging t = IsDragging s"
  by (simp add: IsDragging_iff)

lemma root_valid_cong: "root t = root s \<Longrightarrow> root_valid os t = root_valid os s"
  by (simp add: root_valid_def)

lemma count_sweeps_PostUiEvent:
  "count_sweeps (PostUiEvent os ev s) = count_sweeps s"
  by (simp add: PostUiEvent_def delete_payload_def PostMessage_def count_sweeps_def)

text \<open>One message handled while a session is active.\<close>

lemma RootSubclassProc_session:
  assumes "IsDragging s"
  shows "root (RootSubclassProc os m s) = root s \<and>
         target (RootSubclassProc os m s) = target s \<and>
         in_ole_drop (RootSubclassProc os m s) = in_ole_drop s \<and>
         pending_re_reg (RootSubclassProc os m s) = pending_re_reg s \<and>
         count_sweeps (RootSubclassProc os m s) = count_sweeps s \<and>
         (private_msg m \<longrightarrow>
            msg_queue (RootSubclassProc os m s) =
              msg_queue s @ (if m = kMsgDoReRegister \<and> pending_re_reg s
                             then [kMsgDoReRegister] else []))"
proof (cases m)
  case kMsgDoReRegister
  with assms show ?thesis
    by (simp add: RootSubclassProc_def PostMessage_def count_sweeps_def)
next
  case (kMsgFireUiEvent ev)
  have "same_control s (DeliverUiEvent ev s)" by (rule same_control_DeliverUiEvent)
  with kMsgFireUiEvent show ?thesis
    by (simp add: RootSubclassProc_def delete_payload_def same_control_def count_sweeps_def)
next
  case (WM_DROPFILES h)
  from assms have "Target_IsDragging s" "target s"
    by (simp_all add: IsDragging_def split: if_splits)
  with WM_DROPFILES show ?thesis
    by (simp add: RootSubclassProc_def OnWmDropFiles_def HandleDropFiles_def os_call_def
        count_sweeps_def)
next
  case (WM_PARENTNOTIFY_CREATE w)
  have "same_control s (RegisterOnWindow os w s)" by (rule same_control_RegisterOnWindow)
  with WM_PARENTNOTIFY_CREATE show ?thesis
    by (simp add: RootSubclassProc_def PostMessage_def os_call_def same_control_def
        count_sweeps_def)
next
  case (WM_PARENTNOTIFY_DESTROY w)
  have "same_control s (RevokeOnWindow os w s)" by (rule same_control_RevokeOnWindow)
  with WM_PARENTNOTIFY_DESTROY show ?thesis
    by (simp add: RootSubclassProc_def os_call_def same_control_def count_sweeps_def)
next
  case WM_OTHER
  then show ?thesis by (simp add: RootSubclassProc_def)
qed

text \<open>One private message handled outside a session.\<close>

lemma RootSubclassProc_idle:
  assumes "\<not> IsDragging s" "root_valid os s" "private_msg m"
  shows "root (RootSubclassProc os m s) = root s \<and>
         target (RootSubclassProc os m s) = target s \<and>
         in_ole_drop (RootSubclassProc os m s) = in_ole_drop s \<and>
         msg_queue (RootSubclassProc os m s) = msg_queue s \<and>
         (pending_re_reg (RootSubclassProc os m s) \<longleftrightarrow>
            pending_re_reg s \<and> m \<noteq> kMsgDoReRegister) \<and>
         count_sweeps (RootSubclassProc os m s) =
           count_sweeps s + (if m = kMsgDoReRegister \<and> pending_re_reg s then 1 else 0)"
proof (cases m)
  case kMsgDoReRegister
  show ?thesis
  proof (cases "pending_re_reg s")
    case True
    let ?t = "s\<lparr>pending_re_reg := False\<rparr>"
    have v: "root_valid os ?t" using assms(2) by (simp add: root_valid_def)
    have e: "RootSubclassProc os m s = ForceReRegisterAll os ?t"
      using kMsgDoReRegister True assms(1) by (simp add: RootSubclassProc_def)
    have c: "count_sweeps ?t = count_sweeps s" by (simp add: count_sweeps_def)
    from ForceReRegisterAll_control [OF v] show ?thesis
      unfolding e using kMsgDoReRegister True c by simp
  next
    case False
    with kMsgDoReRegister show ?thesis by (simp add: RootSubclassProc_def)
  qed
next
  case (kMsgFireUiEvent ev)
  have "same_control s (DeliverUiEvent ev s)" by (rule same_control_DeliverUiEvent)
  with kMsgFireUiEvent show ?thesis
    by (simp add: RootSubclassProc_def delete_payload_def same_control_def count_sweeps_def)
qed (use assms(3) in simp_all)

lemma pump_session:
  assumes "IsDragging s" "list_all private_msg (msg_queue s)"
  shows "IsDragging (pump os k s) \<and> root (pump os k s) = root s \<and>
         pending_re_reg (pump os k s) = pending_re_reg s \<and>
         count_sweeps (pump os k s) = count_sweeps s \<and>
         list_all private_msg (msg_queue (pump os k s))"
  using assms
proof (induction k arbitrary: s)
  case 0
  then show ?case by simp
next
  case (Suc k)
  show ?case
  proof (cases "msg_queue s")
    case Nil
    with Suc.prems show ?thesis by simp
  next
    case (Cons m ms)
    let ?s' = "s\<lparr>msg_queue := ms\<rparr>"
    let ?t = "RootSubclassProc os m ?s'"
    from Suc.prems Cons have d: "IsDragging ?s'" and pm: "private_msg m"
      and pms: "list_all private_msg ms"
      by (simp_all add: IsDragging_iff)
    note st = RootSubclassProc_session [OF d, of os m]
    from st d have dt: "IsDragging ?t" by (simp add: IsDragging_iff)
    from st pm pms have qt: "list_all private_msg (msg_queue ?t)" by simp
    have c: "count_sweeps ?s' = count_sweeps s" by (simp add: count_sweeps_def)
    from Suc.IH [OF dt qt] st c Cons show ?thesis by simp
  qed
qed

lemma pump_idle:
  assumes "\<not> IsDragging s" "root_valid os s" "list_all private_msg (msg_queue s)"
    "length (msg_queue s) \<le> n"
  shows "msg_queue (pump os n s) = [] \<and>
         count_sweeps (pump os n s) =
           count_sweeps s +
           (if pending_re_reg s \<and> kMsgDoReRegister \<in> set (msg_queue s) then 1 else 0) \<and>
         (pending_re_reg (pump os n s) \<longleftrightarrow>
            pending_re_reg s \<and> kMsgDoReRegister \<notin> set (msg_queue s)) \<and>
         \<not> IsDragging (pump os n s)"
  using assms
proof (induction n arbitrary: s)
  case 0
  then show ?case by simp
next
  case (Suc n)
  show ?case
  proof (cases "msg_queue s")
    case Nil
    with Suc.prems show ?thesis by simp
  next
    case (Cons m ms)
    let ?s' = "s\<lparr>msg_queue := ms\<rparr>"
    let ?t = "RootSubclassProc os m ?s'"
    from Suc.prems Cons have d: "\<not> IsDragging ?s'" and v: "root_valid os ?s'"
      and pm: "private_msg m" and pms: "list_all private_msg ms" and len: "length ms \<le> n"
      by (simp_all add: IsDragging_iff root_valid_def)
    note st = RootSubclassProc_idle [OF d v pm]
    from st d have dt: "\<not> IsDragging ?t" by (simp add: IsDragging_iff)
    from st v have vt: "root_valid os ?t" by (simp add: root_valid_def)
    from st pms have qt: "list_all private_msg (msg_queue ?t)" by simp
    from st len have lt: "length (msg_queue ?t) \<le> n" by simp
    have c: "count_sweeps ?s' = count_sweeps s" by (simp add: count_sweeps_def)
    have p: "pump os (Suc n) s = pump os n ?t" using Cons by simp
    from Suc.IH [OF dt vt qt lt] st c Cons show ?thesis
      unfolding p by auto
  qed
qed

lemma count_sweeps_simps:
  "count_sweeps (s\<lparr>in_ole_drop := b\<rparr>) = count_sweeps s"
  "count_sweeps (s\<lparr>last_drop_ms := t\<rparr>) = count_sweeps s"
  "count_sweeps (s\<lparr>msg_queue := q\<rparr>) = count_sweeps s"
  "count_sweeps (s\<lparr>pending_re_reg := p\<rparr>) = count_sweeps s"
  "count_sweeps (snd (new_payload pl s)) = count_sweeps s"
  "count_sweeps (snd (new_list fs s)) = count_sweeps s"
  "count_sweeps (PostMessage m s) = count_sweeps s"
  "count_sweeps (delete_payload ev s) = count_sweeps s"
  by (simp_all add: count_sweeps_def prim_defs)

lemma count_sweeps_RequestReRegisterAll:
  "count_sweeps (RequestReRegisterAll os s) = count_sweeps s"
  by (simp add: RequestReRegisterAll_def count_sweeps_simps)

lemma count_sweeps_OnDragSessionEnd:
  "count_sweeps (OnDragSessionEnd os s) = count_sweeps s"
  using same_control_FlushPendingChildOps [of s os]
  by (simp add: OnDragSessionEnd_def Let_def count_sweeps_RequestReRegisterAll same_control_def)

lemma count_sweeps_EnsureRegisteredUnderPoint:
  "count_sweeps (EnsureRegisteredUnderPoint os pt s) = count_sweeps s"
  using same_control_RegisterOnWindow [of s os "WindowFromPoint os pt"]
  by (simp add: EnsureRegisteredUnderPoint_def Let_def same_control_def)

lemma count_sweeps_callbacks:
  "count_sweeps (result_state (DragEnter os d key pt eff s)) = count_sweeps s"
  "count_sweeps (result_state (DragOver os key pt eff s)) = count_sweeps s"
  "count_sweeps (result_state (DragLeave os s)) = count_sweeps s"
  "count_sweeps (result_state (Drop os d key pt eff s)) = count_sweeps s"
  by (simp_all add: DragEnter_def DragOver_def DragLeave_def Drop_def Let_def
      split_beta count_sweeps_simps count_sweeps_PostUiEvent
      count_sweeps_OnDragSessionEnd count_sweeps_EnsureRegisteredUnderPoint)

lemma OnDragSessionEnd_pending:
  assumes "root_valid os s" "pending_re_reg s"
  shows "root (OnDragSessionEnd os s) = root s \<and>
         target (OnDragSessionEnd os s) = target s \<and>
         in_ole_drop (OnDragSessionEnd os s) = in_ole_drop s \<and>
         pending_re_reg (OnDragSessionEnd os s) \<and>
         msg_queue (OnDragSessionEnd os s) = msg_queue s @ [kMsgDoReRegister]"
  using same_control_FlushPendingChildOps [of s os] assms
  by (simp add: OnDragSessionEnd_def Let_def RequestReRegisterAll_def PostMessage_def
      same_control_def root_valid_def)

lemma DragLeave_ends_session:
  assumes "root_valid os s" "pending_re_reg s"
  shows "\<not> in_ole_drop (result_state (DragLeave os s)) \<and>
         root (result_state (DragLeave os s)) = root s \<and>
         target (result_state (DragLeave os s)) = target s \<and>
         pending_re_reg (result_state (DragLeave os s)) \<and>
         msg_queue (result_state (DragLeave os s)) =
           msg_queue s @ [kMsgFireUiEvent (next_addr s), kMsgDoReRegister]"
proof -
  let ?u = "PostUiEvent os (next_addr s)
      (snd (new_payload \<lparr>ev_type = Exited, ev_x = 0, ev_y = 0, ev_files = None\<rparr>
         (s\<lparr>in_ole_drop := False\<rparr>)))"
  have e: "result_state (DragLeave os s) = (OnDragSessionEnd os ?u)\<lparr>last_drop_ms := NowMs os 0\<rparr>"
    by (simp add: DragLeave_def Let_def new_payload_def)
  from assms have u: "root ?u = root s" "target ?u = target s" "\<not> in_ole_drop ?u"
    "pending_re_reg ?u" "msg_queue ?u = msg_queue s @ [kMsgFireUiEvent (next_addr s)]"
    by (simp_all add: PostUiEvent_def root_valid_def prim_defs)
  from u assms have "root_valid os ?u" by (simp add: root_valid_def)
  from OnDragSessionEnd_pending [OF this u(4)] u show ?thesis
    unfolding e by simp
qed

lemma Drop_ends_session:
  assumes "root_valid os s" "pending_re_reg s"
  shows "\<not> in_ole_drop (result_state (Drop os d key pt eff s)) \<and>
         root (result_state (Drop os d key pt eff s)) = root s \<and>
         target (result_state (Drop os d key pt eff s)) = target s \<and>
         pending_re_reg (result_state (Drop os d key pt eff s)) \<and>
         msg_queue (result_state (Drop os d key pt eff s)) =
           msg_queue s @ [kMsgFireUiEvent (Suc (next_addr s)),
                          kMsgFireUiEvent (Suc (Suc (next_addr s))), kMsgDoReRegister]"
proof -
  let ?s1 = "snd (new_list (drop_files os d) s)"
  let ?s2 = "snd (new_payload \<lparr>ev_type = Performed, ev_x = 0, ev_y = 0,
                 ev_files = Some (next_addr s)\<rparr> ?s1)"
  let ?s3 = "PostUiEvent os (Suc (next_addr s)) ?s2"
  let ?s4 = "snd (new_payload \<lparr>ev_type = Exited, ev_x = 0, ev_y = 0, ev_files = None\<rparr> ?s3)"
  let ?s5 = "PostUiEvent os (Suc (Suc (next_addr s))) ?s4"
  let ?u = "?s5\<lparr>in_ole_drop := False\<rparr>"
  from assms have r: "root s \<noteq> 0" "IsWindow os (root s)" by (simp_all add: root_valid_def)
  have s3: "?s3 = PostMessage (kMsgFireUiEvent (Suc (next_addr s))) ?s2"
    using r by (simp add: PostUiEvent_def prim_defs)
  have n3: "next_addr ?s3 = Suc (Suc (next_addr s))"
    unfolding s3 by (simp add: prim_defs)
  have s5: "?s5 = PostMessage (kMsgFireUiEvent (Suc (Suc (next_addr s)))) ?s4"
    using r by (simp add: PostUiEvent_def prim_defs)
  have e: "result_state (Drop os d key pt eff s) = (OnDragSessionEnd os ?u)\<lparr>last_drop_ms := NowMs os 0\<rparr>"
    using n3 by (simp add: Drop_def Let_def split_beta new_payload_def new_list_def)
  from assms have u: "root ?u = root s" "target ?u = target s" "\<not> in_ole_drop ?u"
    "pending_re_reg ?u"
    "msg_queue ?u = msg_queue s @ [kMsgFireUiEvent (Suc (next_addr s)),
                          kMsgFireUiEvent (Suc (Suc (next_addr s)))]"
    using r by (simp_all add: PostUiEvent_def prim_defs)
  from u assms have "root_valid os ?u" by (simp add: root_valid_def)
  from OnDragSessionEnd_pending [OF this u(4)] u show ?thesis
    unfolding e by simp
qed

text \<open>A requested sweep, a session that ends, and the queue drained.\<close>

lemma sweep_once_after:
  assumes d: "IsDragging s" and p: "pending_re_reg s" and v: "root_valid os s"
    and q: "list_all private_msg (msg_queue s)"
    and t: "\<not> in_ole_drop t \<and> root t = root (pump os k s) \<and> target t = target (pump os k s) \<and>
            pending_re_reg t \<and> msg_queue t = msg_queue (pump os k s) @ ms @ [kMsgDoReRegister]"
    and ms: "list_all private_msg ms"
    and c: "count_sweeps t = count_sweeps (pump os k s)"
    and n: "length (msg_queue t) \<le> n"
  shows "count_sweeps (pump os k s) = count_sweeps s \<and>
         count_sweeps (pump os n t) = count_sweeps s + 1 \<and>
         msg_queue (pump os n t) = [] \<and>
         \<not> pending_re_reg (pump os n t)"
proof -
  note a = pump_session [OF d q, of os k]
  from t have i: "\<not> IsDragging t" by (simp add: IsDragging_iff)
  from t a v have vt: "root_valid os t" by (simp add: root_valid_def)
  from t a ms have qt: "list_all private_msg (msg_queue t)" by simp
  from t have m: "kMsgDoReRegister \<in> set (msg_queue t)" by simp
  from pump_idle [OF i vt qt n] t m a c show ?thesis by simp
qed

text \<open>
  When the pending re-registration flag is set. The number of sweeps (\<open>ForceReRegisterAll\<close>
  runs) does not change when the root window procedure handles a message while the
  session is active, and none of the drag callbacks runs a sweep. With the flag set and
  the session active, the deferred-work message is handled any number \<open>k\<close> of times
  without a sweep, re-posting itself; after the session ends (by \<open>DragLeave\<close> or by \<open>Drop\<close>)
  and a queue of private messages is handled to its end, exactly one sweep has run, the
  queue is empty and the flag is cleared, however many copies of the message the queue
  held.
\<close>

lemma sweep_once_when_pending:
  "(IsDragging s \<longrightarrow> count_sweeps (RootSubclassProc os m s) = count_sweeps s) \<and>
   count_sweeps (result_state (DragEnter os d key pt eff s)) = count_sweeps s \<and>
   count_sweeps (result_state (DragOver os key pt eff s)) = count_sweeps s \<and>
   count_sweeps (result_state (DragLeave os s)) = count_sweeps s \<and>
   count_sweeps (result_state (Drop os d key pt eff s)) = count_sweeps s \<and>
   (IsDragging s \<and> pending_re_reg s \<and> root_valid os s \<and>
    list_all private_msg (msg_queue s) \<and>
    length (msg_queue (result_state (DragLeave os (pump os k s)))) \<le> n \<longrightarrow>
      count_sweeps (pump os k s) = count_sweeps s \<and>
      count_sweeps (pump os n (result_state (DragLeave os (pump os k s)))) = count_sweeps s + 1 \<and>
      msg_queue (pump os n (result_state (DragLeave os (pump os k s)))) = [] \<and>
      \<not> pending_re_reg (pump os n (result_state (DragLeave os (pump os k s))))) \<and>
   (IsDragging s \<and> pending_re_reg s \<and> root_valid os s \<and>
    list_all private_msg (msg_queue s) \<and>
    length (msg_queue (result_state (Drop os d key pt eff (pump os k s)))) \<le> n \<longrightarrow>
      count_sweeps (pump os k s) = count_sweeps s \<and>
      count_sweeps (pump os n (result_state (Drop os d key pt eff (pump os k s)))) =
        count_sweeps s + 1 \<and>
      msg_queue (pump os n (result_state (Drop os d key pt eff (pump os k s)))) = [] \<and>
      \<not> pending_re_reg (pump os n (result_state (Drop os d key pt eff (pump os k s)))))"
proof -
  have A: "count_sweeps (RootSubclassProc os m s) = count_sweeps s" if "IsDragging s"
    using RootSubclassProc_session [OF that, of os m] by simp
  have B: "count_sweeps (pump os k s) = count_sweeps s \<and>
      count_sweeps (pump os n (result_state (DragLeave os (pump os k s)))) = count_sweeps s + 1 \<and>
      msg_queue (pump os n (result_state (DragLeave os (pump os k s)))) = [] \<and>
      \<not> pending_re_reg (pump os n (result_state (DragLeave os (pump os k s))))"
    if h: "IsDragging s" "pending_re_reg s" "root_valid os s" "list_all private_msg (msg_queue s)"
      "length (msg_queue (result_state (DragLeave os (pump os k s)))) \<le> n"
  proof -
    note a = pump_session [OF h(1) h(4), of os k]
    from a h have v: "root_valid os (pump os k s)" and p: "pending_re_reg (pump os k s)"
      by (simp_all add: root_valid_def)
    from DragLeave_ends_session [OF v p]
    have t: "\<not> in_ole_drop (result_state (DragLeave os (pump os k s))) \<and>
        root (result_state (DragLeave os (pump os k s))) = root (pump os k s) \<and>
        target (result_state (DragLeave os (pump os k s))) = target (pump os k s) \<and>
        pending_re_reg (result_state (DragLeave os (pump os k s))) \<and>
        msg_queue (result_state (DragLeave os (pump os k s))) =
          msg_queue (pump os k s) @ [kMsgFireUiEvent (next_addr (pump os k s))] @ [kMsgDoReRegister]"
      by simp
    show ?thesis
      by (rule sweep_once_after [OF h(1) h(2) h(3) h(4) t _ count_sweeps_callbacks(3) h(5)]) simp
  qed
  have C: "count_sweeps (pump os k s) = count_sweeps s \<and>
      count_sweeps (pump os n (result_state (Drop os d key pt eff (pump os k s)))) =
        count_sweeps s + 1 \<and>
      msg_queue (pump os n (result_state (Drop os d key pt eff (pump os k s)))) = [] \<and>
      \<not> pending_re_reg (pump os n (result_state (Drop os d key pt eff (pump os k s))))"
    if h: "IsDragging s" "pending_re_reg s" "root_valid os s" "list_all private_msg (msg_queue s)"
      "length (msg_queue (result_state (Drop os d key pt eff (pump os k s)))) \<le> n"
  proof -
    note a = pump_session [OF h(1) h(4), of os k]
    from a h have v: "root_valid os (pump os k s)" and p: "pending_re_reg (pump os k s)"
      by (simp_all add: root_valid_def)
    from Drop_ends_session [OF v p, of d key pt eff]
    have t: "\<not> in_ole_drop (result_state (Drop os d key pt eff (pump os k s))) \<and>
        root (result_state (Drop os d key pt eff (pump os k s))) = root (pump os k s) \<and>
        target (result_state (Drop os d key pt eff (pump os k s))) = target (pump os k s) \<and>
        pending_re_reg (result_state (Drop os d key pt eff (pump os k s))) \<and>
        msg_queue (result_state (Drop os d key pt eff (pump os k s))) =
          msg_queue (pump os k s) @
          [kMsgFireUiEvent (Suc (next_addr (pump os k s))),
           kMsgFireUiEvent (Suc (Suc (next_addr (pump os k s))))] @ [kMsgDoReRegister]"
      by simp
    show ?thesis
      by (rule sweep_once_after [OF h(1) h(2) h(3) h(4) t _ count_sweeps_callbacks(4) h(5)]) simp
  qed
  from A B C show ?thesis
    by (simp only: count_sweeps_callbacks) blast
qed

text \<open>For example, with the flag set and the message queued: the message is handled three
  times during the session, the session ends with \<open>DragLeave\<close>, and the three messages
  then in the queue are handled.\<close>

lemma sweep_once_when_pending_example:
  "IsDragging s_due \<and> pending_re_reg s_due \<and> root_valid os_plain s_due \<and>
   list_all private_msg (msg_queue s_due) \<and>
   length (msg_queue (result_state (DragLeave os_plain (pump os_plain 3 s_due)))) \<le> 3 \<and>
   count_sweeps s_due = 0 \<and>
   count_sweeps (RootSubclassProc os_plain kMsgDoReRegister s_due) = 0 \<and>
   count_sweeps (pump os_plain 3 s_due) = 0 \<and>
   count_sweeps (pump os_plain 3 (result_state (DragLeave os_plain (pump os_plain 3 s_due)))) = 1 \<and>
   msg_queue (pump os_plain 3 (result_state (DragLeave os_plain (pump os_plain 3 s_due)))) = [] \<and>
   \<not> pending_re_reg (pump os_plain 3 (result_state (DragLeave os_plain (pump os_plain 3 s_due))))"
proof -
  have f: "target s_due" "in_ole_drop s_due" "root s_due = 1" "os_calls s_due = []"
    "msg_queue s_due = [kMsgDoReRegister]" "pending_re_reg s_due"
    by (simp_all add: s_due_def s_session_def s_idle_def)
  have h: "IsDragging s_due" "pending_re_reg s_due" "root_valid os_plain s_due"
    "list_all private_msg (msg_queue s_due)"
    by (simp_all add: f IsDragging_def Target_IsDragging_def root_valid_def os_plain_def)
  have z: "count_sweeps s_due = 0" by (simp add: count_sweeps_def f)
  have step: "RootSubclassProc os_plain kMsgDoReRegister (s_due\<lparr>msg_queue := []\<rparr>) = s_due"
    by (simp add: RootSubclassProc_def IsDragging_def Target_IsDragging_def PostMessage_def
        s_due_def s_session_def s_idle_def)
  have pk: "pump os_plain 3 s_due = s_due"
    by (simp add: numeral_3_eq_3 f step)
  have len: "length (msg_queue (result_state (DragLeave os_plain (pump os_plain 3 s_due)))) \<le> 3"
    unfolding pk using DragLeave_ends_session [OF h(3) h(2)] by (simp add: f)
  from sweep_once_when_pending [where s = s_due and os = os_plain and m = kMsgDoReRegister
      and k = 3 and n = 3] h len z
  show ?thesis by simp
qed

lemma s_child_eq:
  "s_child = s_session\<lparr>pending_add := [3], os_calls := [CallDragAcceptFiles 3 True],
                         msg_queue := [kMsgDoReRegister]\<rparr>"
  by (simp add: s_child_def RootSubclassProc_def RegisterOnWindow_def IsDragging_def
      Target_IsDragging_def s_session_simps prim_defs)

lemma s_child_handled_in_session:
  "pump os_plain 1 s_child = s_child\<lparr>msg_queue := []\<rparr>"
  by (simp add: s_child_eq RootSubclassProc_def IsDragging_def Target_IsDragging_def
      s_session_simps)

lemma DragLeave_not_pending:
  assumes "root_valid os s" "\<not> pending_re_reg s"
  shows "\<not> pending_re_reg (result_state (DragLeave os s)) \<and>
         msg_queue (result_state (DragLeave os s)) = msg_queue s @ [kMsgFireUiEvent (next_addr s)] \<and>
         \<not> IsDragging (result_state (DragLeave os s)) \<and>
         root (result_state (DragLeave os s)) = root s"
proof -
  let ?u = "PostUiEvent os (next_addr s)
      (snd (new_payload \<lparr>ev_type = Exited, ev_x = 0, ev_y = 0, ev_files = None\<rparr>
         (s\<lparr>in_ole_drop := False\<rparr>)))"
  have e: "result_state (DragLeave os s) = (OnDragSessionEnd os ?u)\<lparr>last_drop_ms := NowMs os 0\<rparr>"
    by (simp add: DragLeave_def Let_def new_payload_def)
  from assms have u: "root ?u = root s" "\<not> in_ole_drop ?u" "\<not> pending_re_reg ?u"
    "msg_queue ?u = msg_queue s @ [kMsgFireUiEvent (next_addr s)]"
    by (simp_all add: PostUiEvent_def root_valid_def prim_defs)
  from same_control_FlushPendingChildOps [of ?u os] u show ?thesis
    unfolding e by (simp add: OnDragSessionEnd_def Let_def same_control_def IsDragging_iff)
qed

text \<open>
  Claim C4, on the code. During a session, the root receives \<open>WM_PARENTNOTIFY\<close>/\<open>WM_CREATE\<close>
  for a new child \<open>3\<close>; the window procedure posts the deferred-work message to have a
  sweep run, but does not set the pending re-registration flag, as \<open>RequestReRegisterAll\<close>
  does. No sweep runs during the session. The message is not kept either: handled during
  the session it is neither acted on nor re-posted, and handled after \<open>DragLeave\<close> it does
  nothing. With the queue handled to its end, no sweep has run.
\<close>

theorem child_creation_request_dropped:
  "IsDragging s_session \<and> \<not> pending_re_reg s_session \<and> msg_queue s_session = [] \<and>
   s_child = RootSubclassProc os_plain (WM_PARENTNOTIFY_CREATE 3) s_session \<and>
   msg_queue s_child = [kMsgDoReRegister] \<and>
   \<not> pending_re_reg s_child \<and>
   msg_queue (pump os_plain 1 s_child) = [] \<and>
   count_sweeps (pump os_plain 1 s_child) = 0 \<and>
   \<not> IsDragging (result_state (DragLeave os_plain s_child)) \<and>
   msg_queue (result_state (DragLeave os_plain s_child)) =
     [kMsgDoReRegister, kMsgFireUiEvent 0] \<and>
   msg_queue (pump os_plain 2 (result_state (DragLeave os_plain s_child))) = [] \<and>
   count_sweeps (pump os_plain 2 (result_state (DragLeave os_plain s_child))) = 0"
proof -
  let ?t = "result_state (DragLeave os_plain s_child)"
  have a: "IsDragging s_session" "\<not> pending_re_reg s_session" "msg_queue s_session = []"
    by (simp_all add: IsDragging_iff s_session_simps)
  have b: "s_child = RootSubclassProc os_plain (WM_PARENTNOTIFY_CREATE 3) s_session"
    by (rule s_child_def)
  have c: "msg_queue s_child = [kMsgDoReRegister]" "\<not> pending_re_reg s_child"
    by (simp_all add: s_child_eq s_session_simps)
  have c': "root s_child = 1" "count_sweeps s_child = 0" "next_addr s_child = 0"
    by (simp_all add: s_child_eq s_session_simps count_sweeps_def)
  have h: "msg_queue (pump os_plain 1 s_child) = []" "count_sweeps (pump os_plain 1 s_child) = 0"
    unfolding s_child_handled_in_session using c' by (simp_all add: count_sweeps_def)
  have v: "root_valid os_plain s_child"
    by (simp add: root_valid_def c' os_plain_simps)
  note t = DragLeave_not_pending [OF v c(2)]
  from t have i: "\<not> IsDragging ?t" by simp
  from t c c' have q: "msg_queue ?t = [kMsgDoReRegister, kMsgFireUiEvent 0]" by simp
  from t c' have vt: "root_valid os_plain ?t" by (simp add: root_valid_def os_plain_simps)
  have pq: "list_all private_msg (msg_queue ?t)" by (simp add: q)
  have len: "length (msg_queue ?t) \<le> 2" by (simp add: q)
  from pump_idle [OF i vt pq len] t c' count_sweeps_callbacks(3) [of os_plain s_child]
  have d: "msg_queue (pump os_plain 2 ?t) = []" "count_sweeps (pump os_plain 2 ?t) = 0"
    by simp_all
  from a b c h i q d show ?thesis by blast
qed


end
